theory Spec2Isabelle
  imports Complex_Main "HOL-Library.Sublist"
begin

section \<open>FileTools: the video compressor (videocompression2.py)\<close>

text \<open>
  A shallow embedding of \<^verbatim>\<open>src/vidoecompression/videocompression2.py\<close>.
  Python strings are HOL strings whose characters are read as code points below 256;
  Python's \<^verbatim>\<open>int\<close> is \<^typ>\<open>int\<close>; \<^verbatim>\<open>None\<close> is \<^term>\<open>None\<close>.
  An exception is a value of \<open>py_exc\<close>, and a function that can raise returns
  \<open>py_exc + 'a\<close>.
\<close>

subsection \<open>Exceptions\<close>

datatype verr =
    InvalidResolutionFormat string   \<comment> \<open>line 37\<close>
  | InvalidDuration                  \<comment> \<open>line 199\<close>
  | InvalidLiteral string            \<comment> \<open>\<^verbatim>\<open>int(s)\<close> on text that is no integer\<close>
  | UnpackMismatch                   \<comment> \<open>\<^verbatim>\<open>a, b = ...\<close> on another number of values\<close>
  | NanToInteger                     \<comment> \<open>\<^verbatim>\<open>int(x)\<close> on a NaN\<close>

datatype rerr =
    FFmpegFailed int                 \<comment> \<open>line 121: the exit code only\<close>
  | FFmpegFailedTail int string      \<comment> \<open>line 192: the exit code and the unread rest of stderr\<close>
  | OutputNotCreated                 \<comment> \<open>line 316\<close>
  | ProbeFailed                      \<comment> \<open>lines 88, 110\<close>

datatype py_exc =
    ValueError verr
  | RuntimeError rerr
  | AttributeError
  | ZeroDivisionError
  | OverflowError                    \<comment> \<open>\<^verbatim>\<open>int(x)\<close> on an infinity\<close>
  | TimeoutExpired
  | KeyboardInterrupt
  | SystemExit int

text \<open>
  \<^verbatim>\<open>except Exception\<close> catches every exception of the model but
  \<^verbatim>\<open>KeyboardInterrupt\<close> and \<^verbatim>\<open>SystemExit\<close>, which derive from
  \<^verbatim>\<open>BaseException\<close> only.
\<close>

fun is_Exception :: "py_exc \<Rightarrow> bool" where
  "is_Exception KeyboardInterrupt = False"
| "is_Exception (SystemExit c) = False"
| "is_Exception e = True"

subsection \<open>Strings\<close>

definition is_digit :: "char \<Rightarrow> bool" where
  \<comment> \<open>\<^verbatim>\<open>\d\<close>: below code point 256 the decimal digits are 0 to 9.\<close>
  "is_digit c = (48 \<le> (of_char c :: nat) \<and> (of_char c :: nat) \<le> 57)"

definition digit_val :: "char \<Rightarrow> nat" where
  "digit_val c = of_char c - 48"

fun nat_of_digits :: "nat \<Rightarrow> string \<Rightarrow> nat" where
  "nat_of_digits acc [] = acc"
| "nat_of_digits acc (c # cs) = nat_of_digits (10 * acc + digit_val c) cs"

fun split_on :: "char \<Rightarrow> string \<Rightarrow> string list" where
  \<comment> \<open>\<^verbatim>\<open>s.split(sep)\<close> for a separator of one character.\<close>
  "split_on sep [] = [[]]"
| "split_on sep (c # cs) =
     (if c = sep then [] # split_on sep cs
      else (case split_on sep cs of
              [] \<Rightarrow> [[c]]
            | p # ps \<Rightarrow> (c # p) # ps))"

fun starts_with :: "string \<Rightarrow> string \<Rightarrow> bool" where
  \<comment> \<open>\<^verbatim>\<open>s.startswith(p)\<close>, arguments in the order (p, s).\<close>
  "starts_with [] s = True"
| "starts_with (p # ps) [] = False"
| "starts_with (p # ps) (c # cs) = (p = c \<and> starts_with ps cs)"

fun contains :: "string \<Rightarrow> string \<Rightarrow> bool" where
  \<comment> \<open>\<^verbatim>\<open>p in s\<close>, arguments in the order (p, s).\<close>
  "contains p [] = (p = [])"
| "contains p (c # cs) = (starts_with p (c # cs) \<or> contains p cs)"

subsection \<open>Resolution planning\<close>

definition RESOLUTION_PRESETS :: "(string \<times> string) list" where
  "RESOLUTION_PRESETS =
     [(''144p'', ''256x144''), (''240p'', ''426x240''), (''360p'', ''640x360''),
      (''480p'', ''854x480''), (''720p'', ''1280x720''), (''1080p'', ''1920x1080'')]"

definition preset :: "string \<Rightarrow> string option" where
  "preset name = map_of RESOLUTION_PRESETS name"

fun falsy :: "string option \<Rightarrow> bool" where
  \<comment> \<open>\<^verbatim>\<open>not res_str\<close>: \<^verbatim>\<open>None\<close> and the empty string.\<close>
  "falsy None = True"
| "falsy (Some s) = (s = [])"

definition normalize_resolution :: "string option \<Rightarrow> int \<Rightarrow> string option" where
  \<comment> \<open>\<^verbatim>\<open>_normalize_resolution\<close>, lines 39 to 55.\<close>
  "normalize_resolution res_str target_size =
     (case (case res_str of None \<Rightarrow> None | Some s \<Rightarrow> preset s) of
        Some wh \<Rightarrow> Some wh
      | None \<Rightarrow>
          if falsy res_str then
            (if target_size \<le> 5 then preset ''144p''
             else if target_size \<le> 15 then preset ''240p''
             else if target_size \<le> 50 then preset ''360p''
             else if target_size \<le> 100 then preset ''480p''
             else res_str)
          else res_str)"

definition re_match_wxh :: "string \<Rightarrow> bool" where
  \<comment> \<open>\<^verbatim>\<open>re.match(r'^\d+x\d+$', s)\<close>, line 36. Each \<^verbatim>\<open>\d+\<close> is followed by a
      character that is no digit, so the greedy match is the only one;
      \<^verbatim>\<open>$\<close> matches at the end and also before a newline that ends the string.\<close>
  "re_match_wxh s =
     (let w = takeWhile is_digit s; r1 = dropWhile is_digit s in
      w \<noteq> [] \<and>
      (case r1 of
         [] \<Rightarrow> False
       | c # r2 \<Rightarrow>
           c = CHR ''x'' \<and>
           (let h = takeWhile is_digit r2; r3 = dropWhile is_digit r2 in
            h \<noteq> [] \<and> (r3 = [] \<or> r3 = [CHR 0x0A]))))"

record compressor =
  input_path :: string
  output_path :: string
  target_size_mb :: int
  verbose :: bool
  resolution :: "string option"

definition VideoCompressor_init ::
  "string \<Rightarrow> string \<Rightarrow> int \<Rightarrow> string option \<Rightarrow> bool \<Rightarrow> py_exc + compressor" where
  \<comment> \<open>\<^verbatim>\<open>__init__\<close>, lines 29 to 37. Paths are taken as already resolved.\<close>
  "VideoCompressor_init inp outp target res verb =
     (let r = normalize_resolution res target in
      (case r of
         None \<Rightarrow>
           Inr \<lparr>input_path = inp, output_path = outp, target_size_mb = target,
                verbose = verb, resolution = r\<rparr>
       | Some s \<Rightarrow>
           if s \<noteq> [] \<and> \<not> re_match_wxh s
           then Inl (ValueError (InvalidResolutionFormat s))
           else Inr \<lparr>input_path = inp, output_path = outp, target_size_mb = target,
                     verbose = verb, resolution = r\<rparr>))"

subsection \<open>Floats\<close>

text \<open>
  A Python \<^verbatim>\<open>float\<close> is an IEEE-754 double: a number \<open>m * 2 ^ e\<close> with a
  significand of 53 bits. Every arithmetic operation returns the double nearest to the
  exact result, ties going to the even significand; \<open>fl\<close> is that rounding.

  The sizes, durations and clock readings of a job are values of \<open>pyfloat\<close>: finite
  doubles, taken far inside the range of the exponent, which \<open>fl\<close> leaves unbounded
  (no overflow, no subnormal numbers). The times read from the stream of the encoder
  are not: line 159 lets a run of digits of any length through, and \<^verbatim>\<open>float\<close>
  returns \<^verbatim>\<open>inf\<close> for a decimal beyond the largest double. They are values of
  \<open>xfloat\<close>, defined below, where a result beyond the largest double is an infinity.
\<close>

type_synonym pyfloat = real

function bit_length :: "nat \<Rightarrow> nat" where
  "bit_length n = (if n = 0 then 0 else Suc (bit_length (n div 2)))"
  by pat_completeness auto
termination
  by (relation "measure id") auto

declare bit_length.simps [simp del]

definition pow2 :: "int \<Rightarrow> real" where
  "pow2 e = (if 0 \<le> e then 2 ^ nat e else 1 / 2 ^ nat (- e))"

definition ilog2 :: "real \<Rightarrow> int" where
  \<comment> \<open>For \<open>0 < x\<close>, the exponent \<open>e\<close> with \<open>2 ^ e \<le> x < 2 ^ (e + 1)\<close>.\<close>
  "ilog2 x =
     (if 1 \<le> x then int (bit_length (nat \<lfloor>x\<rfloor>)) - 1
      else - int (bit_length (nat (\<lceil>1 / x\<rceil> - 1))))"

definition round_half_even :: "real \<Rightarrow> int" where
  "round_half_even q =
     (let f = \<lfloor>q\<rfloor>; r = q - of_int f in
      if r < 1 / 2 then f
      else if 1 / 2 < r then f + 1
      else if even f then f else f + 1)"

definition fl :: "real \<Rightarrow> pyfloat" where
  "fl x =
     (if x = 0 then 0
      else (let u = pow2 (ilog2 \<bar>x\<bar> - 52) in
            sgn x * of_int (round_half_even (\<bar>x\<bar> / u)) * u))"

definition float_of_int :: "int \<Rightarrow> pyfloat" where
  \<comment> \<open>The conversion of an \<^verbatim>\<open>int\<close> operand that meets a \<^verbatim>\<open>float\<close>.\<close>
  "float_of_int i = fl (of_int i)"

definition fadd :: "pyfloat \<Rightarrow> pyfloat \<Rightarrow> pyfloat" where
  "fadd a b = fl (a + b)"

definition fsub :: "pyfloat \<Rightarrow> pyfloat \<Rightarrow> pyfloat" where
  "fsub a b = fl (a - b)"

definition fmul :: "pyfloat \<Rightarrow> pyfloat \<Rightarrow> pyfloat" where
  "fmul a b = fl (a * b)"

definition fdiv :: "pyfloat \<Rightarrow> pyfloat \<Rightarrow> py_exc + pyfloat" where
  "fdiv a b = (if b = 0 then Inl ZeroDivisionError else Inr (fl (a / b)))"

definition py_int_of_float :: "pyfloat \<Rightarrow> int" where
  \<comment> \<open>\<^verbatim>\<open>int(x)\<close> truncates towards zero.\<close>
  "py_int_of_float x = (if 0 \<le> x then \<lfloor>x\<rfloor> else \<lceil>x\<rceil>)"

definition float_of_digits :: "string \<Rightarrow> string \<Rightarrow> pyfloat" where
  \<comment> \<open>\<^verbatim>\<open>float("I.F")\<close> for digit strings I and F, the decimal being inside the
      range of doubles: the double nearest to its value.\<close>
  "float_of_digits ip fp =
     fl (of_nat (nat_of_digits 0 ip) + of_nat (nat_of_digits 0 fp) / 10 ^ length fp)"

text \<open>
  A double that may be infinite or NaN. An operation whose rounded result is beyond
  \<open>DBL_MAX\<close> in magnitude returns the infinity of its sign, without raising.
\<close>

datatype xfloat = Fin pyfloat | PInf | NInf | NaN

definition DBL_MAX :: real where
  \<comment> \<open>\<^verbatim>\<open>sys.float_info.max\<close>\<close>
  "DBL_MAX = (2 ^ 53 - 1) * 2 ^ 971"

definition xlift :: "real \<Rightarrow> xfloat" where
  \<comment> \<open>The double for a result that \<open>fl\<close> has rounded.\<close>
  "xlift y = (if DBL_MAX < y then PInf else if y < - DBL_MAX then NInf else Fin y)"

definition xround :: "real \<Rightarrow> xfloat" where
  "xround x = xlift (fl x)"

fun xneg :: "xfloat \<Rightarrow> xfloat" where
  "xneg (Fin a) = Fin (- a)"
| "xneg PInf = NInf"
| "xneg NInf = PInf"
| "xneg NaN = NaN"

fun xadd :: "xfloat \<Rightarrow> xfloat \<Rightarrow> xfloat" where
  \<comment> \<open>\<^verbatim>\<open>x + y\<close>\<close>
  "xadd (Fin a) (Fin b) = xround (a + b)"
| "xadd (Fin a) y = y"
| "xadd PInf (Fin b) = PInf"
| "xadd PInf PInf = PInf"
| "xadd PInf y = NaN"
| "xadd NInf (Fin b) = NInf"
| "xadd NInf NInf = NInf"
| "xadd NInf y = NaN"
| "xadd NaN y = NaN"

fun xmul :: "xfloat \<Rightarrow> pyfloat \<Rightarrow> xfloat" where
  \<comment> \<open>\<^verbatim>\<open>x * c\<close> for a finite \<open>c\<close>\<close>
  "xmul (Fin a) c = xround (a * c)"
| "xmul PInf c = (if 0 < c then PInf else if c < 0 then NInf else NaN)"
| "xmul NInf c = (if 0 < c then NInf else if c < 0 then PInf else NaN)"
| "xmul NaN c = NaN"

fun xdiv :: "xfloat \<Rightarrow> pyfloat \<Rightarrow> xfloat" where
  \<comment> \<open>\<^verbatim>\<open>x / d\<close> for a finite \<open>d\<close> that is not 0 (lines 167 and 172 divide by
      a positive number only, and so does line 173).\<close>
  "xdiv (Fin a) d = xround (a / d)"
| "xdiv PInf d = (if 0 < d then PInf else NInf)"
| "xdiv NInf d = (if 0 < d then NInf else PInf)"
| "xdiv NaN d = NaN"

fun xless :: "xfloat \<Rightarrow> xfloat \<Rightarrow> bool" where
  \<comment> \<open>\<^verbatim>\<open>x < y\<close>: false as soon as one side is NaN\<close>
  "xless (Fin a) (Fin b) = (a < b)"
| "xless (Fin a) PInf = True"
| "xless (Fin a) y = False"
| "xless PInf y = False"
| "xless NInf (Fin b) = True"
| "xless NInf PInf = True"
| "xless NInf y = False"
| "xless NaN y = False"

definition xle :: "xfloat \<Rightarrow> xfloat \<Rightarrow> bool" where
  \<comment> \<open>\<^verbatim>\<open>x <= y\<close>\<close>
  "xle x y = (xless x y \<or> (x = y \<and> x \<noteq> NaN))"

definition py_min :: "xfloat \<Rightarrow> xfloat \<Rightarrow> xfloat" where
  \<comment> \<open>\<^verbatim>\<open>min(x, y)\<close>: the first argument, unless the second is less.\<close>
  "py_min x y = (if xless y x then y else x)"

fun py_int_of_xfloat :: "xfloat \<Rightarrow> py_exc + int" where
  \<comment> \<open>\<^verbatim>\<open>int(x)\<close>\<close>
  "py_int_of_xfloat (Fin a) = Inr (py_int_of_float a)"
| "py_int_of_xfloat PInf = Inl OverflowError"
| "py_int_of_xfloat NInf = Inl OverflowError"
| "py_int_of_xfloat NaN = Inl (ValueError NanToInteger)"

subsection \<open>Numbers and text\<close>

definition is_space :: "char \<Rightarrow> bool" where
  \<comment> \<open>The characters below 256 that \<^verbatim>\<open>str.strip()\<close> and \<^verbatim>\<open>int()\<close> skip.\<close>
  "is_space c =
     (let n = (of_char c :: nat) in
      (9 \<le> n \<and> n \<le> 13) \<or> (28 \<le> n \<and> n \<le> 32) \<or> n = 133 \<or> n = 160)"

definition py_strip :: "string \<Rightarrow> string" where
  "py_strip s = rev (dropWhile is_space (rev (dropWhile is_space s)))"

fun int_body_ok :: "string \<Rightarrow> bool" where
  \<comment> \<open>Digits, with single underscores allowed between two digits.\<close>
  "int_body_ok [] = False"
| "int_body_ok [c] = is_digit c"
| "int_body_ok (c # d # cs) =
     (is_digit c \<and> (if d = CHR ''_'' then int_body_ok cs else int_body_ok (d # cs)))"

definition py_int :: "string \<Rightarrow> py_exc + int" where
  \<comment> \<open>\<^verbatim>\<open>int(s)\<close> in base 10.\<close>
  "py_int s =
     (let t = py_strip s;
          neg = (case t of [] \<Rightarrow> False | c # r \<Rightarrow> c = CHR ''-'');
          body = (case t of [] \<Rightarrow> [] | c # r \<Rightarrow> if c = CHR ''-'' \<or> c = CHR ''+'' then r else t)
      in if int_body_ok body
         then Inr ((if neg then - 1 else 1) *
                   int (nat_of_digits 0 (filter (\<lambda>c. c \<noteq> CHR ''_'') body)))
         else Inl (ValueError (InvalidLiteral s)))"

definition py_float :: "string \<Rightarrow> xfloat option" where
  \<comment> \<open>\<^verbatim>\<open>float(s)\<close> for plain decimals (an optional sign, digits, an optional point
      and digits) of any length. \<^term>\<open>None\<close> is \<^verbatim>\<open>ValueError\<close>. The other
      spellings Python reads (exponents, underscores, inf, nan) are not modelled: the
      pattern of line 159 lets plain decimals through only.\<close>
  "py_float s =
     (let t = py_strip s;
          neg = (case t of [] \<Rightarrow> False | c # r \<Rightarrow> c = CHR ''-'');
          body = (case t of [] \<Rightarrow> [] | c # r \<Rightarrow> if c = CHR ''-'' \<or> c = CHR ''+'' then r else t)
      in (case split_on CHR ''.'' body of
            [ip] \<Rightarrow>
              if ip \<noteq> [] \<and> list_all is_digit ip
              then Some (if neg then xneg (xlift (float_of_digits ip []))
                         else xlift (float_of_digits ip []))
              else None
          | [ip, fp] \<Rightarrow>
              if \<not> (ip = [] \<and> fp = []) \<and> list_all is_digit ip \<and> list_all is_digit fp
              then Some (if neg then xneg (xlift (float_of_digits ip fp))
                         else xlift (float_of_digits ip fp))
              else None
          | _ \<Rightarrow> None))"

definition parse_wh :: "string \<Rightarrow> py_exc + (int \<times> int)" where
  \<comment> \<open>\<^verbatim>\<open>a, b = map(int, s.split('x'))\<close>, lines 261 and 262: the values are converted
      one by one, and unpacking asks for a third one to see that there is none.\<close>
  "parse_wh s =
     (case split_on CHR ''x'' s of
        [] \<Rightarrow> Inl (ValueError UnpackMismatch)
      | [a] \<Rightarrow>
          (case py_int a of Inl e \<Rightarrow> Inl e | Inr w \<Rightarrow> Inl (ValueError UnpackMismatch))
      | [a, b] \<Rightarrow>
          (case py_int a of
             Inl e \<Rightarrow> Inl e
           | Inr w \<Rightarrow> (case py_int b of Inl e \<Rightarrow> Inl e | Inr h \<Rightarrow> Inr (w, h)))
      | a # b # c # others \<Rightarrow>
          (case py_int a of
             Inl e \<Rightarrow> Inl e
           | Inr w \<Rightarrow>
               (case py_int b of
                  Inl e \<Rightarrow> Inl e
                | Inr h \<Rightarrow>
                    (case py_int c of
                       Inl e \<Rightarrow> Inl e
                     | Inr x \<Rightarrow> Inl (ValueError UnpackMismatch)))))"

definition digit_char :: "nat \<Rightarrow> char" where
  "digit_char n = ''0123456789'' ! (n mod 10)"

function str_nat :: "nat \<Rightarrow> string" where
  "str_nat n = (if n < 10 then [digit_char n] else str_nat (n div 10) @ [digit_char n])"
  by pat_completeness auto
termination
  by (relation "measure id") auto

declare str_nat.simps [simp del]

definition str_int :: "int \<Rightarrow> string" where
  \<comment> \<open>\<^verbatim>\<open>str(i)\<close>, and \<^verbatim>\<open>{i}\<close> in an f-string.\<close>
  "str_int i = (if i < 0 then CHR ''-'' # str_nat (nat (- i)) else str_nat (nat i))"

subsection \<open>The world outside the script\<close>

text \<open>
  The file system maps a path to the size in bytes of the file there. What the script
  prints and the processes it starts are recorded, in order, in a trace. The encoder and
  the probe are opaque: a run of the encoder is given by what the script can observe of
  it (a \<open>proc\<close>), the probe by its result.
\<close>

type_synonym path = string
type_synonym fs = "path \<rightharpoonup> nat"

datatype event =
    Line string      \<comment> \<open>\<^verbatim>\<open>readline()\<close> returns this text\<close>
  | Interrupt        \<comment> \<open>Ctrl+C arrives while the script waits for the process\<close>

record proc =
  stream :: "event list"     \<comment> \<open>the diagnostic stream, until its end\<close>
  returncode :: int
  exits_in_time :: bool      \<comment> \<open>whether \<^verbatim>\<open>wait(timeout=10)\<close> sees the process exit\<close>
  writes :: "fs \<Rightarrow> fs"       \<comment> \<open>the files as the process leaves them\<close>

datatype msg =
    Executing "string list"
  | ProgressStart string pyfloat
  | ProgressLine string xfloat pyfloat int xfloat
  | Newline
  | Interrupting
  | ErrorMsg py_exc
  | SourceVideo string pyfloat
  | TargetSize int
  | AutoSelected int "string option"
  | UsingSpecified string
  | MinBitrateWarning int
  | AdjustedTargetSize pyfloat int
  | CalculatedBitrates int int
  | OverheadEstimate pyfloat pyfloat
  | CompressionCompleted pyfloat
  | OutputSavedTo path
  | SizeAccuracy pyfloat
  | SizeWarning pyfloat "string option"
  | ToolNotFound string
  | InputNotFound path
  | Aborted
  | TqdmTip
  | Cancelled
  | CriticalError py_exc

datatype effect =
    Print msg
  | Popen "string list"
  | KillTree                            \<comment> \<open>\<^verbatim>\<open>taskkill /F /T\<close> or \<^verbatim>\<open>os.killpg\<close>, lines 178 to 181\<close>
  | BarCreate pyfloat string            \<comment> \<open>\<^verbatim>\<open>tqdm(total=..., desc=...)\<close>\<close>
  | BarUpdate xfloat "xfloat option"    \<comment> \<open>\<^verbatim>\<open>pbar.n\<close>, the speed postfix if set, a refresh\<close>
  | BarClose

record world =
  files :: fs
  trace :: "effect list"
  ticks :: nat               \<comment> \<open>how many times \<^verbatim>\<open>time.time()\<close> was called\<close>

record env =
  os_nt :: bool              \<comment> \<open>\<^verbatim>\<open>os.name == 'nt'\<close>\<close>
  TQDM_AVAILABLE :: bool
  clock :: "nat \<Rightarrow> pyfloat"    \<comment> \<open>what the n-th call of \<^verbatim>\<open>time.time()\<close> returns\<close>
  which :: "string \<Rightarrow> bool"    \<comment> \<open>\<^verbatim>\<open>shutil.which(tool)\<close> finds the tool\<close>
  response :: string         \<comment> \<open>the answer typed at the overwrite prompt\<close>

definition emit :: "effect \<Rightarrow> world \<Rightarrow> world" where
  "emit e w = w\<lparr>trace := trace w @ [e]\<rparr>"

definition say :: "msg \<Rightarrow> world \<Rightarrow> world" where
  "say m w = emit (Print m) w"

definition time_time :: "env \<Rightarrow> world \<Rightarrow> pyfloat \<times> world" where
  "time_time en w = (clock en (ticks w), w\<lparr>ticks := Suc (ticks w)\<rparr>)"

subsection \<open>Progress monitoring: \<^verbatim>\<open>_parse_time\<close> and \<^verbatim>\<open>_run_ffmpeg\<close>\<close>

definition parse_time :: "string \<Rightarrow> xfloat" where
  \<comment> \<open>\<^verbatim>\<open>_parse_time\<close>, lines 57 to 66: a missing part (\<^verbatim>\<open>IndexError\<close>) or a part
      that is no number (\<^verbatim>\<open>ValueError\<close>) gives 0.0.\<close>
  "parse_time time_str =
     (case split_on CHR '':'' time_str of
        a # b # c # others \<Rightarrow>
          (case py_float a of
             None \<Rightarrow> Fin 0
           | Some hours \<Rightarrow>
               (case py_float b of
                  None \<Rightarrow> Fin 0
                | Some minutes \<Rightarrow>
                    (case py_float c of
                       None \<Rightarrow> Fin 0
                     | Some seconds \<Rightarrow>
                         xadd (xadd (xmul hours 3600) (xmul minutes 60)) seconds)))
      | _ \<Rightarrow> Fin 0)"

definition take_digits :: "string \<Rightarrow> (string \<times> string) option" where
  \<comment> \<open>A greedy \<^verbatim>\<open>\d+\<close>: the digits and what follows them.\<close>
  "take_digits s =
     (let d = takeWhile is_digit s in
      if d = [] then None else Some (d, dropWhile is_digit s))"

definition expect :: "char \<Rightarrow> string \<Rightarrow> string option" where
  "expect c s = (case s of [] \<Rightarrow> None | x # r \<Rightarrow> if x = c then Some r else None)"

definition match_time_at :: "string \<Rightarrow> string option" where
  \<comment> \<open>\<^verbatim>\<open>time=(\d+:\d+:\d+\.\d+)\<close> matched at the start of the text: group 1.\<close>
  "match_time_at s =
     (if starts_with ''time='' s then
        (case take_digits (drop 5 s) of
           None \<Rightarrow> None
         | Some (h, r1) \<Rightarrow>
         (case expect CHR '':'' r1 of
           None \<Rightarrow> None
         | Some r2 \<Rightarrow>
         (case take_digits r2 of
           None \<Rightarrow> None
         | Some (m, r3) \<Rightarrow>
         (case expect CHR '':'' r3 of
           None \<Rightarrow> None
         | Some r4 \<Rightarrow>
         (case take_digits r4 of
           None \<Rightarrow> None
         | Some (sec, r5) \<Rightarrow>
         (case expect CHR ''.'' r5 of
           None \<Rightarrow> None
         | Some r6 \<Rightarrow>
         (case take_digits r6 of
           None \<Rightarrow> None
         | Some (ms, r7) \<Rightarrow> Some (h @ '':'' @ m @ '':'' @ sec @ ''.'' @ ms))))))))
      else None)"

fun search_time :: "string \<Rightarrow> string option" where
  \<comment> \<open>\<^verbatim>\<open>re.search\<close> of line 159: the leftmost match.\<close>
  "search_time [] = None"
| "search_time (c # cs) =
     (case match_time_at (c # cs) of
        Some g \<Rightarrow> Some g
      | None \<Rightarrow> search_time cs)"

record mon =
  last_time :: pyfloat
  current_time :: xfloat

definition progress_percent :: "xfloat \<Rightarrow> pyfloat \<Rightarrow> py_exc + int" where
  \<comment> \<open>Line 173: \<^verbatim>\<open>min(100, int(current_time / duration * 100)) if duration > 0 else 0\<close>.
      \<^verbatim>\<open>int\<close> raises on an infinity and on a NaN.\<close>
  "progress_percent cur duration =
     (if 0 < duration
      then (case py_int_of_xfloat (xmul (xdiv cur duration) 100) of
              Inl e \<Rightarrow> Inl e
            | Inr i \<Rightarrow> Inr (min 100 i))
      else Inr 0)"

definition on_line ::
  "env \<Rightarrow> pyfloat \<Rightarrow> string \<Rightarrow> bool \<Rightarrow> pyfloat \<Rightarrow> string \<Rightarrow> mon \<Rightarrow> world
   \<Rightarrow> py_exc option \<times> mon \<times> world" where
  \<comment> \<open>Lines 157 to 175, for one line of the stream. \<open>bar\<close> is
      \<^verbatim>\<open>use_tqdm and pbar\<close>. The first component is the exception raised, if any.\<close>
  "on_line en duration description bar start_time line m w =
     (if contains ''time='' line then
        (case search_time line of
           None \<Rightarrow> (None, m, w)
         | Some g \<Rightarrow>
             (let cur = parse_time g; m1 = m\<lparr>current_time := cur\<rparr> in
              if bar then
                (let (t, w1) = time_time en w;
                     elapsed = fsub t start_time
                 in (None, m1,
                     emit (BarUpdate (py_min cur (Fin duration))
                             (if 0 < elapsed then Some (xdiv cur elapsed) else None)) w1))
              else
                (let (t1, w1) = time_time en w in
                 if 1 \<le> fsub t1 (last_time m1) then
                   (let (t2, w2) = time_time en w1;
                        elapsed = fsub t2 start_time;
                        speed = (if 0 < elapsed then xdiv cur elapsed else Fin 0)
                    in (case progress_percent cur duration of
                          Inl e \<Rightarrow> (Some e, m1, w2)
                        | Inr progress \<Rightarrow>
                            (let w3 = say (ProgressLine description cur duration progress speed) w2;
                                 (t3, w4) = time_time en w3
                             in (None, m1\<lparr>last_time := t3\<rparr>, w4))))
                 else (None, m1, w1))))
      else (None, m, w))"

fun monitor ::
  "env \<Rightarrow> pyfloat \<Rightarrow> string \<Rightarrow> bool \<Rightarrow> pyfloat \<Rightarrow> event list \<Rightarrow> mon \<Rightarrow> world
   \<Rightarrow> py_exc option \<times> event list \<times> mon \<times> world" where
  \<comment> \<open>The loop of lines 152 to 175. The result gives the exception that ended it, if
      one did (\<^verbatim>\<open>KeyboardInterrupt\<close>, or what line 173 raised), and the part of the
      stream left unread.\<close>
  "monitor en duration description bar start_time [] m w = (None, [], m, w)"
| "monitor en duration description bar start_time (Interrupt # evs) m w =
     (Some KeyboardInterrupt, evs, m, w)"
| "monitor en duration description bar start_time (Line l # evs) m w =
     (if l = [] then (None, evs, m, w)
      else (case on_line en duration description bar start_time l m w of
              (None, m', w') \<Rightarrow> monitor en duration description bar start_time evs m' w'
            | (Some e, m', w') \<Rightarrow> (Some e, evs, m', w')))"

fun unread_text :: "event list \<Rightarrow> string" where
  \<comment> \<open>\<^verbatim>\<open>process.stderr.read()\<close>: the text left in the stream.\<close>
  "unread_text [] = []"
| "unread_text (Line l # evs) = l @ unread_text evs"
| "unread_text (Interrupt # evs) = unread_text evs"

definition use_tqdm :: "env \<Rightarrow> pyfloat \<Rightarrow> bool" where
  \<comment> \<open>Line 125.\<close>
  "use_tqdm en duration = (TQDM_AVAILABLE en \<and> 5 < duration)"

definition has_bar :: "env \<Rightarrow> pyfloat \<Rightarrow> bool" where
  \<comment> \<open>Line 131: the bar is created. From then on \<^verbatim>\<open>use_tqdm and pbar\<close> holds exactly
      when it was (a tqdm bar is true when its total is positive).\<close>
  "has_bar en duration = (use_tqdm en duration \<and> 0 < duration)"

definition start_pass ::
  "env \<Rightarrow> string list \<Rightarrow> pyfloat \<Rightarrow> string \<Rightarrow> proc \<Rightarrow> world \<Rightarrow> pyfloat \<times> world" where
  \<comment> \<open>Lines 124 to 148: the clock is read, the bar is created or the first status line
      printed, and the process is started. The result is \<^verbatim>\<open>start_time\<close> and the world.\<close>
  "start_pass en cmd duration description p w =
     (case time_time en w of
        (start_time, w1) \<Rightarrow>
          (let w2 = (if has_bar en duration then emit (BarCreate duration description) w1
                     else say (ProgressStart description duration) w1);
               w3 = emit (Popen cmd) w2
           in (start_time, w3\<lparr>files := writes p (files w3)\<rparr>)))"

definition finish_pass ::
  "env \<Rightarrow> pyfloat \<Rightarrow> proc \<Rightarrow> py_exc option \<times> event list \<times> mon \<times> world
   \<Rightarrow> (py_exc + unit) \<times> world" where
  \<comment> \<open>Lines 176 to 192, from what the loop returned: the handler of
      \<^verbatim>\<open>KeyboardInterrupt\<close>, the \<^verbatim>\<open>finally\<close> block (a wait that times out
      replaces the exception in flight), the exception of the loop raised again, and
      the check of the exit code.\<close>
  "finish_pass en duration p r =
     (case r of
        (raised, unread, m, w5) \<Rightarrow>
          (let w6 = (if raised = Some KeyboardInterrupt
                     then emit KillTree (say Interrupting w5) else w5) in
           if \<not> exits_in_time p then (Inl TimeoutExpired, w6)
           else
             (let w7 = (if has_bar en duration then emit BarClose w6 else say Newline w6) in
              (case raised of
                 Some e \<Rightarrow> (Inl e, w7)
               | None \<Rightarrow>
                   if returncode p \<noteq> 0 \<and> returncode p \<noteq> 255
                   then (Inl (RuntimeError
                                (FFmpegFailedTail (returncode p)
                                   (py_strip (unread_text unread)))),
                         w7)
                   else (Inr (), w7)))))"

definition run_ffmpeg ::
  "env \<Rightarrow> compressor \<Rightarrow> string list \<Rightarrow> pyfloat \<Rightarrow> string \<Rightarrow> proc \<Rightarrow> world
   \<Rightarrow> (py_exc + unit) \<times> world" where
  \<comment> \<open>\<^verbatim>\<open>_run_ffmpeg\<close>, lines 114 to 192. With \<^verbatim>\<open>verbose\<close> the stream is not read,
      and an \<open>Interrupt\<close> in it is Ctrl+C arriving during \<^verbatim>\<open>process.wait()\<close>.\<close>
  "run_ffmpeg en self cmd duration description p w =
     (if verbose self then
        (let w1 = say (Executing cmd) w;
             w2 = emit (Popen cmd) w1;
             w3 = w2\<lparr>files := writes p (files w2)\<rparr>
         in if Interrupt \<in> set (stream p) then (Inl KeyboardInterrupt, w3)
            else if returncode p \<noteq> 0
            then (Inl (RuntimeError (FFmpegFailed (returncode p))), w3)
            else (Inr (), w3))
      else
        (case start_pass en cmd duration description p w of
           (start_time, w4) \<Rightarrow>
             finish_pass en duration p
               (monitor en duration description (has_bar en duration) start_time (stream p)
                  \<lparr>last_time = 0, current_time = Fin 0\<rparr> w4)))"

subsection \<open>\<^verbatim>\<open>compress\<close>\<close>

definition determine_resolution :: "compressor \<Rightarrow> world \<Rightarrow> string option \<times> world" where
  \<comment> \<open>Lines 207 to 213.\<close>
  "determine_resolution self w =
     (case resolution self of
        None \<Rightarrow>
          (let target_res = normalize_resolution None (target_size_mb self) in
           (target_res, say (AutoSelected (target_size_mb self) target_res) w))
      | Some s \<Rightarrow>
          if s = [] then
            (let target_res = normalize_resolution None (target_size_mb self) in
             (target_res, say (AutoSelected (target_size_mb self) target_res) w))
          else (Some s, say (UsingSpecified s) w))"

record budget =
  total_bits :: int
  audio_bitrate_kbps :: int
  overhead_percent :: pyfloat
  overhead_bits :: pyfloat
  audio_total_bits :: pyfloat
  video_total_bits :: pyfloat
  video_bitrate_kbps :: int

definition MIN_VIDEO_BITRATE :: int where
  "MIN_VIDEO_BITRATE = 50000"

text \<open>
  The budget of lines 215 to 245, one definition for each variable of the source. A
  float literal is the double nearest to it, and an \<^verbatim>\<open>int\<close> that meets a
  \<^verbatim>\<open>float\<close> is converted first.
\<close>

definition audio_kbps_for :: "int \<Rightarrow> int" where
  \<comment> \<open>Line 219.\<close>
  "audio_kbps_for target = (if target \<le> 10 then 64 else if target \<le> 50 then 96 else 128)"

definition overhead_percent_for :: "int \<Rightarrow> pyfloat" where
  \<comment> \<open>Line 223.\<close>
  "overhead_percent_for target =
     (if target \<le> 20 then fl (5 / 100) else if target \<le> 50 then fl (3 / 100) else fl (1 / 100))"

definition overhead_bits_for :: "int \<Rightarrow> pyfloat" where
  \<comment> \<open>Lines 216 and 224.\<close>
  "overhead_bits_for target = fmul (float_of_int (target * 8388608)) (overhead_percent_for target)"

definition audio_total_bits_for :: "int \<Rightarrow> pyfloat \<Rightarrow> pyfloat" where
  \<comment> \<open>Lines 220 and 227.\<close>
  "audio_total_bits_for target duration =
     fmul (float_of_int (audio_kbps_for target * 1000)) duration"

definition available_video_bits :: "int \<Rightarrow> pyfloat \<Rightarrow> pyfloat" where
  \<comment> \<open>Line 228.\<close>
  "available_video_bits target duration =
     fsub (fsub (float_of_int (target * 8388608)) (audio_total_bits_for target duration))
       (overhead_bits_for target)"

definition min_video_bits :: "pyfloat \<Rightarrow> pyfloat" where
  \<comment> \<open>Line 232.\<close>
  "min_video_bits duration = fmul (float_of_int MIN_VIDEO_BITRATE) duration"

definition floor_hit :: "int \<Rightarrow> pyfloat \<Rightarrow> bool" where
  \<comment> \<open>The test of line 233.\<close>
  "floor_hit target duration = (available_video_bits target duration < min_video_bits duration)"

definition video_total_bits_for :: "int \<Rightarrow> pyfloat \<Rightarrow> pyfloat" where
  \<comment> \<open>\<^verbatim>\<open>video_total_bits\<close> after line 235.\<close>
  "video_total_bits_for target duration =
     (if floor_hit target duration then min_video_bits duration
      else available_video_bits target duration)"

definition actual_size_mb :: "int \<Rightarrow> pyfloat \<Rightarrow> pyfloat" where
  \<comment> \<open>Lines 237 and 238, where the floor was hit.\<close>
  "actual_size_mb target duration =
     fl (fadd (fadd (min_video_bits duration) (audio_total_bits_for target duration))
           (overhead_bits_for target) / 8388608)"

definition video_kbps_for :: "int \<Rightarrow> pyfloat \<Rightarrow> py_exc + int" where
  \<comment> \<open>Lines 241 and 242.\<close>
  "video_kbps_for target duration =
     (case fdiv (video_total_bits_for target duration) duration of
        Inl e \<Rightarrow> Inl e
      | Inr video_bitrate_bps \<Rightarrow> Inr (py_int_of_float (fl (video_bitrate_bps / 1000))))"

definition calculate_bitrates :: "int \<Rightarrow> pyfloat \<Rightarrow> world \<Rightarrow> (py_exc + budget) \<times> world" where
  \<comment> \<open>Lines 215 to 245, with what they print.\<close>
  "calculate_bitrates target duration w =
     (let w1 = (if floor_hit target duration
                then say (AdjustedTargetSize (actual_size_mb target duration) target)
                       (say (MinBitrateWarning (MIN_VIDEO_BITRATE div 1000)) w)
                else w)
      in (case video_kbps_for target duration of
            Inl e \<Rightarrow> (Inl e, w1)
          | Inr video_kbps \<Rightarrow>
              (let w2 = say (CalculatedBitrates video_kbps (audio_kbps_for target)) w1;
                   w3 = say (OverheadEstimate (overhead_percent_for target)
                               (fl (overhead_bits_for target / 8388608))) w2
               in (Inr \<lparr>total_bits = target * 8388608,
                        audio_bitrate_kbps = audio_kbps_for target,
                        overhead_percent = overhead_percent_for target,
                        overhead_bits = overhead_bits_for target,
                        audio_total_bits = audio_total_bits_for target duration,
                        video_total_bits = video_total_bits_for target duration,
                        video_bitrate_kbps = video_kbps\<rparr>, w3))))"

definition within_range :: "int \<Rightarrow> pyfloat \<Rightarrow> bool" where
  \<comment> \<open>Target sizes and durations with which every operation of lines 215 to 245 stays
      inside the range of doubles, as the model of the floats takes it: beyond the
      range \<^verbatim>\<open>total_bits * overhead_percent\<close> raises \<^verbatim>\<open>OverflowError\<close>.\<close>
  "within_range target duration =
     (\<bar>target\<bar> \<le> 2 ^ 500 \<and> 1 / 2 ^ 500 \<le> duration \<and> duration \<le> 2 ^ 500)"

definition scale_cmd :: "int \<Rightarrow> int \<Rightarrow> string" where
  \<comment> \<open>Lines 265 to 268.\<close>
  "scale_cmd width height =
     ''scale='min('' @ str_int width @ '',iw*'' @ str_int height @ ''/ih)':'min('' @
     str_int height @ '',ih*'' @ str_int width @ ''/iw)','' @
     ''pad='' @ str_int width @ '':'' @ str_int height @ '':(ow-iw)/2:(oh-ih)/2''"

definition build_cmd_base ::
  "compressor \<Rightarrow> string option \<Rightarrow> string \<Rightarrow> py_exc + string list" where
  \<comment> \<open>Lines 247 to 269. \<^verbatim>\<open>None != original_res\<close> is true, and \<^verbatim>\<open>None\<close> has no
      \<^verbatim>\<open>split\<close>.\<close>
  "build_cmd_base self target_res original_res =
     (let cmd_base =
            [''ffmpeg'', ''-y'', ''-i'', input_path self, ''-c:v'', ''libx264'',
             ''-preset'', ''slow'',
             ''-profile:v'', (if target_size_mb self \<le> 50 then ''baseline'' else ''main''),
             ''-pix_fmt'', ''yuv420p'', ''-movflags'', ''+faststart'']
      in (case target_res of
            None \<Rightarrow> Inl AttributeError
          | Some t \<Rightarrow>
              if t = original_res then Inr cmd_base
              else
                (case parse_wh t of
                   Inl e \<Rightarrow> Inl e
                 | Inr (width, height) \<Rightarrow>
                     (case parse_wh original_res of
                        Inl e \<Rightarrow> Inl e
                      | Inr (original_w, original_h) \<Rightarrow>
                          Inr (cmd_base @ [''-vf'', scale_cmd width height])))))"

definition pass1_cmd :: "env \<Rightarrow> string list \<Rightarrow> int \<Rightarrow> string list" where
  \<comment> \<open>Lines 272 to 279.\<close>
  "pass1_cmd en cmd_base video_kbps =
     cmd_base @
     [''-b:v'', str_int video_kbps @ ''k'', ''-pass'', ''1'', ''-passlogfile'', ''ffmpeg2pass'',
      ''-an'', ''-f'', ''null'', (if os_nt en then ''NUL'' else ''/dev/null'')]"

definition pass2_cmd :: "compressor \<Rightarrow> string list \<Rightarrow> int \<Rightarrow> int \<Rightarrow> string list" where
  \<comment> \<open>Lines 282 to 291.\<close>
  "pass2_cmd self cmd_base video_kbps audio_kbps =
     cmd_base @
     [''-b:v'', str_int video_kbps @ ''k'',
      ''-maxrate:v'', str_int (video_kbps * 2) @ ''k'',
      ''-bufsize:v'', str_int (video_kbps * 4) @ ''k'',
      ''-pass'', ''2'', ''-passlogfile'', ''ffmpeg2pass'',
      ''-c:a'', ''aac'', ''-b:a'', str_int audio_kbps @ ''k'', output_path self]"

definition unlink_if_exists :: "path \<Rightarrow> fs \<Rightarrow> fs" where
  \<comment> \<open>\<^verbatim>\<open>if logfile.exists(): logfile.unlink()\<close>\<close>
  "unlink_if_exists f fsys = (case fsys f of None \<Rightarrow> fsys | Some n \<Rightarrow> fsys(f := None))"

definition passlog_files :: "path list" where
  \<comment> \<open>\<^verbatim>\<open>f'ffmpeg2pass{ext}'\<close> for \<^verbatim>\<open>ext in ['', '.mbtree']\<close>\<close>
  "passlog_files = map (\<lambda>ext. ''ffmpeg2pass'' @ ext) [[], ''.mbtree'']"

definition cleanup_passlogs :: "world \<Rightarrow> world" where
  \<comment> \<open>The loops of lines 302 to 305 and 308 to 311.\<close>
  "cleanup_passlogs w = w\<lparr>files := fold unlink_if_exists passlog_files (files w)\<rparr>"

definition on_failure :: "py_exc \<Rightarrow> world \<Rightarrow> (py_exc + unit) \<times> world" where
  \<comment> \<open>\<^verbatim>\<open>except Exception as e:\<close> of lines 306 to 312: clean up and raise again.
      An exception that is no \<^verbatim>\<open>Exception\<close> passes.\<close>
  "on_failure e w = (if is_Exception e then (Inl e, cleanup_passlogs w) else (Inl e, w))"

definition run_two_pass ::
  "env \<Rightarrow> compressor \<Rightarrow> string list \<Rightarrow> string list \<Rightarrow> pyfloat \<Rightarrow> proc \<Rightarrow> proc \<Rightarrow> world
   \<Rightarrow> (py_exc + unit) \<times> world" where
  \<comment> \<open>Lines 293 to 312.\<close>
  "run_two_pass en self cmd1 cmd2 duration p1 p2 w =
     (case run_ffmpeg en self cmd1 duration ''Analysis Pass'' p1 w of
        (Inl e, w1) \<Rightarrow> on_failure e w1
      | (Inr u, w1) \<Rightarrow>
          (case run_ffmpeg en self cmd2 duration ''Encoding Pass'' p2 w1 of
             (Inl e, w2) \<Rightarrow> on_failure e w2
           | (Inr u, w2) \<Rightarrow> (Inr (), cleanup_passlogs w2)))"

definition final_size_mb :: "nat \<Rightarrow> pyfloat" where
  \<comment> \<open>Line 318: the quotient of two integers, rounded once.\<close>
  "final_size_mb st_size = fl (real st_size / (1024 * 1024))"

definition size_diff :: "compressor \<Rightarrow> nat \<Rightarrow> pyfloat" where
  \<comment> \<open>Line 323.\<close>
  "size_diff self st_size =
     \<bar>fsub (final_size_mb st_size) (float_of_int (target_size_mb self))\<bar>"

definition over_ten_percent :: "compressor \<Rightarrow> nat \<Rightarrow> bool" where
  \<comment> \<open>The test of line 327.\<close>
  "over_ten_percent self st_size =
     (fmul (float_of_int (target_size_mb self)) (fl (1 / 10)) < size_diff self st_size)"

definition verify_output :: "compressor \<Rightarrow> string option \<Rightarrow> world \<Rightarrow> (py_exc + unit) \<times> world" where
  \<comment> \<open>Lines 314 to 331.\<close>
  "verify_output self target_res w =
     (case files w (output_path self) of
        None \<Rightarrow> (Inl (RuntimeError OutputNotCreated), w)
      | Some st_size \<Rightarrow>
          (let w1 = say (OutputSavedTo (output_path self))
                      (say (CompressionCompleted (final_size_mb st_size)) w)
           in (case fdiv (size_diff self st_size) (float_of_int (target_size_mb self)) of
                 Inl e \<Rightarrow> (Inl e, w1)
               | Inr ratio \<Rightarrow>
                   (let size_accuracy = fsub 100 (fmul ratio 100);
                        w2 = say (SizeAccuracy size_accuracy) w1
                    in if over_ten_percent self st_size
                       then (Inr (), say (SizeWarning (size_diff self st_size) target_res) w2)
                       else (Inr (), w2)))))"

definition compress ::
  "env \<Rightarrow> compressor \<Rightarrow> py_exc + (pyfloat \<times> int \<times> int) \<Rightarrow> proc \<Rightarrow> proc \<Rightarrow> world
   \<Rightarrow> (py_exc + unit) \<times> world" where
  \<comment> \<open>\<^verbatim>\<open>compress\<close>, lines 194 to 331. \<open>probe\<close> is what \<^verbatim>\<open>_get_stream_info\<close> does:
      it raises, or returns the duration and the width and height of the source;
      \<open>p1\<close> and \<open>p2\<close> are the two runs of the encoder.\<close>
  "compress en self probe p1 p2 w =
     (case (case probe of
              Inl e \<Rightarrow> Inl e
            | Inr (d, width, height) \<Rightarrow>
                if d \<le> 0 then Inl (ValueError InvalidDuration)
                else Inr (d, str_int width @ ''x'' @ str_int height)) of
        Inl e \<Rightarrow>
          if is_Exception e then (Inl (SystemExit 1), say (ErrorMsg e) w) else (Inl e, w)
      | Inr (duration, original_res) \<Rightarrow>
          (let w1 = say (TargetSize (target_size_mb self))
                      (say (SourceVideo original_res duration) w)
           in (case determine_resolution self w1 of
                 (target_res, w2) \<Rightarrow>
                   (case calculate_bitrates (target_size_mb self) duration w2 of
                      (Inl e, w3) \<Rightarrow> (Inl e, w3)
                    | (Inr b, w3) \<Rightarrow>
                        (case build_cmd_base self target_res original_res of
                           Inl e \<Rightarrow> (Inl e, w3)
                         | Inr cmd_base \<Rightarrow>
                             (case run_two_pass en self
                                     (pass1_cmd en cmd_base (video_bitrate_kbps b))
                                     (pass2_cmd self cmd_base (video_bitrate_kbps b)
                                        (audio_bitrate_kbps b))
                                     duration p1 p2 w3 of
                                (Inl e, w4) \<Rightarrow> (Inl e, w4)
                              | (Inr u, w4) \<Rightarrow> verify_output self target_res w4))))))"

subsection \<open>\<^verbatim>\<open>main\<close>\<close>

record args =
  a_input :: path
  a_output :: path
  a_target_size :: int
  a_resolution :: "string option"
  a_verbose :: bool
  a_force :: bool

definition check_dependencies :: "env \<Rightarrow> world \<Rightarrow> (py_exc + unit) \<times> world" where
  \<comment> \<open>Lines 333 to 339.\<close>
  "check_dependencies en w =
     (if \<not> which en ''ffmpeg'' then (Inl (SystemExit 1), say (ToolNotFound ''ffmpeg'') w)
      else if \<not> which en ''ffprobe'' then (Inl (SystemExit 1), say (ToolNotFound ''ffprobe'') w)
      else (Inr (), w))"

definition run_job ::
  "env \<Rightarrow> args \<Rightarrow> py_exc + (pyfloat \<times> int \<times> int) \<Rightarrow> proc \<Rightarrow> proc \<Rightarrow> world \<Rightarrow> int \<times> world" where
  \<comment> \<open>The \<^verbatim>\<open>try\<close> statement of lines 377 to 397, with the exit status of the process.\<close>
  "run_job en a probe p1 p2 w =
     (case (case VideoCompressor_init (a_input a) (a_output a) (a_target_size a)
                   (a_resolution a) (a_verbose a) of
              Inl e \<Rightarrow> (Inl e, w)
            | Inr compressor \<Rightarrow> compress en compressor probe p1 p2 w) of
        (Inr u, w1) \<Rightarrow> (0, w1)
      | (Inl KeyboardInterrupt, w1) \<Rightarrow> (130, say Cancelled w1)
      | (Inl (SystemExit c), w1) \<Rightarrow> (c, w1)
      | (Inl e, w1) \<Rightarrow>
          (let w2 = say (CriticalError e) w1 in
           (1, (if files w2 (a_output a) = Some 0
                then w2\<lparr>files := (files w2)(a_output a := None)\<rparr>
                else w2))))"

definition main ::
  "env \<Rightarrow> args \<Rightarrow> py_exc + (pyfloat \<times> int \<times> int) \<Rightarrow> proc \<Rightarrow> proc \<Rightarrow> world \<Rightarrow> int \<times> world" where
  \<comment> \<open>\<^verbatim>\<open>main\<close>, lines 341 to 397, after the arguments are parsed.\<close>
  "main en a probe p1 p2 w =
     (case check_dependencies en w of
        (Inl e, w1) \<Rightarrow> (1, w1)
      | (Inr u, w1) \<Rightarrow>
          if files w1 (a_input a) = None then (1, say (InputNotFound (a_input a)) w1)
          else if files w1 (a_output a) \<noteq> None \<and> \<not> a_force a \<and>
                  response en \<noteq> ''y'' \<and> response en \<noteq> ''Y''
          then (1, say Aborted w1)
          else
            (let w2 = (if \<not> TQDM_AVAILABLE en \<and> \<not> a_verbose a then say TqdmTip w1 else w1)
             in run_job en a probe p1 p2 w2))"

subsection \<open>What the progress display shows\<close>

fun reported :: "effect list \<Rightarrow> xfloat list" where
  \<comment> \<open>The elapsed media time of each progress update, in order: the position of the
      bar (line 164), or the time printed in the status line (line 174).\<close>
  "reported [] = []"
| "reported (BarUpdate n speed # es) = n # reported es"
| "reported (Print (ProgressLine description cur duration progress speed) # es) =
     cur # reported es"
| "reported (e # es) = reported es"

fun marker_times :: "event list \<Rightarrow> xfloat list" where
  \<comment> \<open>The times of the markers in the stream (what lines 158 to 161 read from its
      lines), until its end or an interruption.\<close>
  "marker_times [] = []"
| "marker_times (Interrupt # evs) = []"
| "marker_times (Line l # evs) =
     (if l = [] then []
      else if contains ''time='' l then
        (case search_time l of
           None \<Rightarrow> marker_times evs
         | Some g \<Rightarrow> parse_time g # marker_times evs)
      else marker_times evs)"

definition pass_reports ::
  "env \<Rightarrow> compressor \<Rightarrow> string list \<Rightarrow> pyfloat \<Rightarrow> string \<Rightarrow> proc \<Rightarrow> world
   \<Rightarrow> xfloat list" where
  \<comment> \<open>The progress updates of one pass: what it adds to those made before.\<close>
  "pass_reports en self cmd duration description p w =
     drop (length (reported (trace w)))
       (reported (trace (snd (run_ffmpeg en self cmd duration description p w))))"

fun spawned :: "effect list \<Rightarrow> string list list" where
  \<comment> \<open>The command lines of the processes started, in order.\<close>
  "spawned [] = []"
| "spawned (Popen cmd # es) = cmd # spawned es"
| "spawned (e # es) = spawned es"

subsection \<open>A concrete job\<close>

text \<open>
  Concrete inputs on which the theorems below are instantiated: a POSIX system with
  tqdm installed, a source file of 1920x1080, and runs of the encoder that write the
  pass log, or the destination, and print one progress line. The first run writes the
  pass log under the names that ffmpeg documents for the prefix given with
  \<^verbatim>\<open>-passlogfile\<close>: the prefix, then \<^verbatim>\<open>-0.log\<close>, and the same with
  \<^verbatim>\<open>.mbtree\<close> for the statistics of libx264.
\<close>

definition ex_env :: env where
  "ex_env = \<lparr>os_nt = False, TQDM_AVAILABLE = True, clock = (\<lambda>n. 1000 + real n),
             which = (\<lambda>tool. True), response = []\<rparr>"

definition ex_world :: world where
  "ex_world = \<lparr>files = [''in.mp4'' \<mapsto> 1000000], trace = [], ticks = 0\<rparr>"

definition ex_args :: args where
  "ex_args = \<lparr>a_input = ''in.mp4'', a_output = ''out.mp4'', a_target_size = 10,
              a_resolution = None, a_verbose = False, a_force = False\<rparr>"

definition ex_self :: compressor where
  "ex_self = \<lparr>input_path = ''in.mp4'', output_path = ''out.mp4'', target_size_mb = 10,
              verbose = False, resolution = Some ''426x240''\<rparr>"

definition ex_probe :: "py_exc + (pyfloat \<times> int \<times> int)" where
  "ex_probe = Inr (60, 1920, 1080)"

definition ex_pass1 :: proc where
  "ex_pass1 = \<lparr>stream = [Line ''frame= 900 time=00:00:30.00 bitrate=N/A\<newline>''],
               returncode = 0, exits_in_time = True,
               writes = (\<lambda>f. f(''ffmpeg2pass-0.log'' \<mapsto> 4096,
                               ''ffmpeg2pass-0.log.mbtree'' \<mapsto> 4096))\<rparr>"

definition ex_pass2 :: proc where
  "ex_pass2 = \<lparr>stream = [Line ''frame= 900 time=00:00:30.00 bitrate=1264k\<newline>''],
               returncode = 0, exits_in_time = True,
               writes = (\<lambda>f. f(''out.mp4'' \<mapsto> 10485760))\<rparr>"

definition ex_pass2_failed :: proc where
  \<comment> \<open>The second run exits with code 1, having written nothing.\<close>
  "ex_pass2_failed = \<lparr>stream = [], returncode = 1, exits_in_time = True, writes = (\<lambda>f. f)\<rparr>"

definition ex_pass2_error :: proc where
  \<comment> \<open>The second run prints an error message and exits with code 1.\<close>
  "ex_pass2_error = \<lparr>stream = [Line ''Conversion failed!\<newline>''], returncode = 1,
                     exits_in_time = True, writes = (\<lambda>f. f)\<rparr>"

definition ex_pass2_interrupted :: proc where
  \<comment> \<open>Ctrl+C arrives during the second run, after one progress line; the process has
      written a part of the destination and exits with code 255 once it is killed.\<close>
  "ex_pass2_interrupted =
     \<lparr>stream = [Line ''frame= 300 time=00:00:10.00 bitrate=1264k\<newline>'', Interrupt],
      returncode = 255, exits_in_time = True,
      writes = (\<lambda>f. f(''out.mp4'' \<mapsto> 1500000))\<rparr>"

definition ex_pass2_empty :: proc where
  \<comment> \<open>The second run exits with code 0 and leaves a destination of no bytes.\<close>
  "ex_pass2_empty = \<lparr>stream = [], returncode = 0, exits_in_time = True,
                     writes = (\<lambda>f. f(''out.mp4'' \<mapsto> 0))\<rparr>"

definition ex_world_empty_out :: world where
  \<comment> \<open>Both passes are over; the destination exists and has no bytes.\<close>
  "ex_world_empty_out =
     \<lparr>files = [''in.mp4'' \<mapsto> 1000000, ''out.mp4'' \<mapsto> 0], trace = [], ticks = 0\<rparr>"

definition ex_world_exact_out :: world where
  \<comment> \<open>Both passes are over; the destination has 10 MB, the target being 10 MB.\<close>
  "ex_world_exact_out =
     \<lparr>files = [''in.mp4'' \<mapsto> 1000000, ''out.mp4'' \<mapsto> 10485760], trace = [], ticks = 0\<rparr>"

definition ex_world_stale :: world where
  \<comment> \<open>Before the job, a file has the name of the prefix itself.\<close>
  "ex_world_stale =
     \<lparr>files = [''in.mp4'' \<mapsto> 1000000, ''ffmpeg2pass'' \<mapsto> 10], trace = [], ticks = 0\<rparr>"

definition ex_world_big_out :: world where
  \<comment> \<open>Both passes are over; the destination has 12 MB, the target being 10 MB.\<close>
  "ex_world_big_out =
     \<lparr>files = [''in.mp4'' \<mapsto> 1000000, ''out.mp4'' \<mapsto> 12582912], trace = [], ticks = 0\<rparr>"

definition ex_pass_back :: proc where
  \<comment> \<open>A run whose second marker is earlier than its first.\<close>
  "ex_pass_back =
     \<lparr>stream = [Line ''time=00:00:10.00\<newline>'', Line ''time=00:00:05.00\<newline>''],
      returncode = 0, exits_in_time = True, writes = (\<lambda>f. f)\<rparr>"

definition ex_pass_over :: proc where
  \<comment> \<open>A run whose marker is beyond the duration of 60 seconds.\<close>
  "ex_pass_over =
     \<lparr>stream = [Line ''time=00:02:00.00\<newline>''],
      returncode = 0, exits_in_time = True, writes = (\<lambda>f. f)\<rparr>"

definition ex_pass_long :: proc where
  \<comment> \<open>A run whose markers advance, the second one beyond the duration of 60 seconds.\<close>
  "ex_pass_long =
     \<lparr>stream = [Line ''time=00:00:30.00\<newline>'', Line ''time=00:01:30.00\<newline>''],
      returncode = 0, exits_in_time = True, writes = (\<lambda>f. f)\<rparr>"

definition ex_default_args :: args where
  \<comment> \<open>The defaults of the command line: a target of 950 MB and no resolution.\<close>
  "ex_default_args = \<lparr>a_input = ''in.mp4'', a_output = ''out.mp4'', a_target_size = 950,
                      a_resolution = None, a_verbose = False, a_force = False\<rparr>"

section \<open>Properties\<close>

subsection \<open>Evaluation\<close>

text \<open>The equations that compute the model on concrete inputs.\<close>

lemmas ex_defs = ex_env_def ex_world_def ex_args_def ex_self_def ex_probe_def ex_pass1_def
  ex_pass2_def ex_pass2_failed_def ex_pass2_empty_def ex_world_empty_out_def ex_world_big_out_def
  ex_pass_back_def ex_pass_over_def ex_pass_long_def ex_default_args_def ex_pass2_error_def
  ex_pass2_interrupted_def ex_world_exact_out_def ex_world_stale_def

lemmas float_eval = fl_def ilog2_def pow2_def round_half_even_def bit_length.simps Let_def
  fadd_def fsub_def fmul_def fdiv_def float_of_int_def py_int_of_float_def float_of_digits_def
  xround_def xlift_def DBL_MAX_def

lemmas text_eval = is_digit_def digit_val_def is_space_def py_strip_def py_int_def py_float_def
  parse_wh_def str_int_def str_nat.simps digit_char_def take_digits_def expect_def
  match_time_at_def parse_time_def

lemmas run_eval = run_ffmpeg_def start_pass_def finish_pass_def has_bar_def use_tqdm_def
  time_time_def emit_def say_def on_line_def progress_percent_def py_min_def

lemmas verify_eval = verify_output_def final_size_mb_def size_diff_def over_ten_percent_def

lemmas budget_eval = audio_kbps_for_def overhead_percent_for_def overhead_bits_for_def
  audio_total_bits_for_def available_video_bits_def min_video_bits_def floor_hit_def
  video_total_bits_for_def actual_size_mb_def video_kbps_for_def MIN_VIDEO_BITRATE_def

subsection \<open>Resolution planning and construction\<close>

lemma preset_simps:
  "preset ''144p'' = Some ''256x144''" "preset ''240p'' = Some ''426x240''"
  "preset ''360p'' = Some ''640x360''" "preset ''480p'' = Some ''854x480''"
  "preset [] = None" "preset ''999'' = None"
  by (simp_all add: preset_def RESOLUTION_PRESETS_def)

lemma preset_names:
  "preset s = Some v \<Longrightarrow>
   s \<in> {''144p'', ''240p'', ''360p'', ''480p'', ''720p'', ''1080p''}"
  by (simp add: preset_def RESOLUTION_PRESETS_def split: if_splits)

lemma re_match_no_preset:
  assumes "re_match_wxh s"
  shows "preset s = None"
proof (cases "preset s")
  case None
  then show ?thesis .
next
  case (Some v)
  from preset_names [OF this] assms show ?thesis
    by (auto simp: re_match_wxh_def is_digit_def)
qed

lemma re_match_nonempty: "re_match_wxh s \<Longrightarrow> s \<noteq> []"
  by (auto simp: re_match_wxh_def)

lemma re_match_digits:
  assumes "wd \<noteq> []" and "ht \<noteq> []" and "list_all is_digit wd" and "list_all is_digit ht"
  shows "re_match_wxh (wd @ ''x'' @ ht)"
proof -
  have x: "\<not> is_digit CHR ''x''" by (simp add: is_digit_def)
  have a: "takeWhile is_digit (wd @ ''x'' @ ht) = wd"
    using assms(3) x by (simp add: list_all_iff takeWhile_append2)
  have b: "dropWhile is_digit (wd @ ''x'' @ ht) = CHR ''x'' # ht"
    using assms(3) x by (simp add: list_all_iff dropWhile_append2)
  have c: "takeWhile is_digit ht = ht" "dropWhile is_digit ht = []"
    using assms(4) by (simp_all add: list_all_iff)
  show ?thesis
    unfolding re_match_wxh_def Let_def a b list.case c using assms(1,2) by simp
qed

theorem C10_zero_dimensions_accepted:
  "(re_match_wxh s \<longrightarrow>
      VideoCompressor_init inp outp target (Some s) verb =
        Inr \<lparr>input_path = inp, output_path = outp, target_size_mb = target, verbose = verb,
             resolution = Some s\<rparr> \<and>
      fst (determine_resolution
             \<lparr>input_path = inp, output_path = outp, target_size_mb = target, verbose = verb,
              resolution = Some s\<rparr> w) = Some s) \<and>
   (wd \<noteq> [] \<and> ht \<noteq> [] \<and> list_all is_digit wd \<and> list_all is_digit ht \<longrightarrow>
      re_match_wxh (wd @ ''x'' @ ht))"
  using re_match_no_preset [of s] re_match_nonempty [of s] re_match_digits [of wd ht]
  by (simp add: VideoCompressor_init_def normalize_resolution_def determine_resolution_def)

theorem C10_zero_dimensions_accepted_witness:
  "re_match_wxh ''0x0'' \<and> re_match_wxh ''0x480'' \<and> re_match_wxh ''640x0'' \<and>
   re_match_wxh ''00x00'' \<and>
   VideoCompressor_init ''in.mp4'' ''out.mp4'' 10 (Some ''0x0'') False =
     Inr \<lparr>input_path = ''in.mp4'', output_path = ''out.mp4'', target_size_mb = 10,
          verbose = False, resolution = Some ''0x0''\<rparr> \<and>
   VideoCompressor_init ''in.mp4'' ''out.mp4'' 10 (Some ''640x0'') False =
     Inr \<lparr>input_path = ''in.mp4'', output_path = ''out.mp4'', target_size_mb = 10,
          verbose = False, resolution = Some ''640x0''\<rparr> \<and>
   fst (determine_resolution
          \<lparr>input_path = ''in.mp4'', output_path = ''out.mp4'', target_size_mb = 10,
           verbose = False, resolution = Some ''0x480''\<rparr> ex_world) = Some ''0x480'' \<and>
   fst (determine_resolution
          \<lparr>input_path = ''in.mp4'', output_path = ''out.mp4'', target_size_mb = 10,
           verbose = False, resolution = Some ''00x00''\<rparr> ex_world) = Some ''00x00'' \<and>
   parse_wh ''0x480'' = Inr (0, 480) \<and> parse_wh ''640x0'' = Inr (640, 0)"
proof -
  have d: "''0'' \<noteq> []" "''00'' \<noteq> []" "''480'' \<noteq> []" "''640'' \<noteq> []"
    "list_all is_digit ''0''" "list_all is_digit ''00''" "list_all is_digit ''480''"
    "list_all is_digit ''640''"
    by (simp_all add: is_digit_def)
  have p: "parse_wh ''0x480'' = Inr (0, 480)" "parse_wh ''640x0'' = Inr (640, 0)"
    by (simp_all add: parse_wh_def py_int_def py_strip_def is_space_def is_digit_def
        digit_val_def Let_def)
  show ?thesis
    using d p
      C10_zero_dimensions_accepted [of "''0x0''" "''in.mp4''" "''out.mp4''" 10 False ex_world
        "''0''" "''0''"]
      C10_zero_dimensions_accepted [of "''0x480''" "''in.mp4''" "''out.mp4''" 10 False ex_world
        "''0''" "''480''"]
      C10_zero_dimensions_accepted [of "''640x0''" "''in.mp4''" "''out.mp4''" 10 False ex_world
        "''640''" "''0''"]
      C10_zero_dimensions_accepted [of "''00x00''" "''in.mp4''" "''out.mp4''" 10 False ex_world
        "''00''" "''00''"]
    by simp
qed

text \<open>
  Claim C8, as stated, fails for the empty string. It is a string, it is no preset name
  and the pattern does not match it, but \<^verbatim>\<open>not res_str\<close> (line 45) and
  \<^verbatim>\<open>self.resolution and ...\<close> (line 36) treat it as no request at all: with a target
  above 100 MB the job is constructed, its resolution the empty string.
\<close>

theorem C8_empty_string_accepted:
  "preset [] = None \<and> \<not> re_match_wxh [] \<and>
   VideoCompressor_init ''in.mp4'' ''out.mp4'' 950 (Some []) False =
     Inr \<lparr>input_path = ''in.mp4'', output_path = ''out.mp4'', target_size_mb = 950,
          verbose = False, resolution = Some []\<rparr>"
  by (simp add: VideoCompressor_init_def normalize_resolution_def preset_simps re_match_wxh_def)

text \<open>
  Claim C8, amended. For every target size, a requested resolution that is not empty,
  is no preset name and is not matched by the pattern of line 36 makes
  \<^verbatim>\<open>__init__\<close> raise \<^verbatim>\<open>ValueError\<close> (invalid resolution format). The constructor
  starts no process: its model has no access to the world.
\<close>

theorem C8_invalid_resolution_rejected:
  assumes "s \<noteq> []" and "preset s = None" and "\<not> re_match_wxh s"
  shows "VideoCompressor_init inp outp target (Some s) verb =
           Inl (ValueError (InvalidResolutionFormat s))"
  using assms by (simp add: VideoCompressor_init_def normalize_resolution_def)

theorem C8_invalid_resolution_rejected_witness:
  "''999'' \<noteq> [] \<and> preset ''999'' = None \<and> \<not> re_match_wxh ''999'' \<and>
   VideoCompressor_init ''in.mp4'' ''out.mp4'' 950 (Some ''999'') False =
     Inl (ValueError (InvalidResolutionFormat ''999''))"
proof -
  have a: "''999'' \<noteq> []" by simp
  have b: "preset ''999'' = None" by (simp add: preset_simps)
  have c: "\<not> re_match_wxh ''999''" by (simp add: re_match_wxh_def is_digit_def)
  show ?thesis
    using a b c C8_invalid_resolution_rejected [OF a b c, of "''in.mp4''" "''out.mp4''" 950 False]
    by simp
qed

subsection \<open>What a pass leaves behind\<close>

lemma files_emit [simp]: "files (emit e w) = files w"
  by (simp add: emit_def)

lemma files_say [simp]: "files (say m w) = files w"
  by (simp add: say_def)

lemma files_time_time [simp]: "files (snd (time_time en w)) = files w"
  by (simp add: time_time_def)

lemma files_on_line [simp]:
  "files (snd (snd (on_line en duration description bar start_time l m w))) = files w"
  by (simp add: on_line_def Let_def time_time_def split_beta split: option.split sum.split)

lemma files_monitor [simp]:
  "files (snd (snd (snd (monitor en duration description bar start_time evs m w)))) = files w"
proof (induction evs arbitrary: m w)
  case Nil
  show ?case by simp
next
  case (Cons ev evs)
  show ?case
  proof (cases ev)
    case (Line l)
    obtain x m' w' where ol: "on_line en duration description bar start_time l m w = (x, m', w')"
      by (cases "on_line en duration description bar start_time l m w")
    have "files w' = files w"
      using files_on_line [of en duration description bar start_time l m w] ol by simp
    with Cons.IH [of m' w'] Line ol show ?thesis by (cases x) simp_all
  next
    case Interrupt
    then show ?thesis by simp
  qed
qed

text \<open>With the progress bar nothing is converted to an integer: the loop raises nothing.\<close>

lemma on_line_bar_raises_nothing [simp]:
  "fst (on_line en duration description True start_time l m w) = None"
  by (simp add: on_line_def Let_def split_beta split: option.split)

lemma monitor_bar_not_interrupted:
  "Interrupt \<notin> set evs \<Longrightarrow>
   fst (monitor en duration description True start_time evs m w) = None"
proof (induction evs arbitrary: m w)
  case Nil
  show ?case by simp
next
  case (Cons ev evs)
  show ?case
  proof (cases ev)
    case (Line l)
    obtain x m' w' where ol: "on_line en duration description True start_time l m w = (x, m', w')"
      by (cases "on_line en duration description True start_time l m w")
    have "x = None"
      using on_line_bar_raises_nothing [of en duration description start_time l m w] ol by simp
    with Cons.IH [of m' w'] Cons.prems Line ol show ?thesis by simp
  next
    case Interrupt
    with Cons.prems show ?thesis by simp
  qed
qed

lemma monitor_reads_all:
  "Line [] \<notin> set evs \<Longrightarrow>
   fst (monitor en duration description bar start_time evs m w) = None \<Longrightarrow>
   fst (snd (monitor en duration description bar start_time evs m w)) = []"
proof (induction evs arbitrary: m w)
  case Nil
  show ?case by simp
next
  case (Cons ev evs)
  show ?case
  proof (cases ev)
    case (Line l)
    obtain x m' w' where ol: "on_line en duration description bar start_time l m w = (x, m', w')"
      by (cases "on_line en duration description bar start_time l m w")
    have ne: "l \<noteq> []" and rest: "Line [] \<notin> set evs"
      using Cons.prems(1) Line by auto
    show ?thesis
    proof (cases x)
      case None
      with Cons.IH [OF rest, of m' w'] Cons.prems(2) Line ol ne show ?thesis by simp
    next
      case (Some e)
      with Cons.prems(2) Line ol ne show ?thesis by simp
    qed
  next
    case Interrupt
    with Cons.prems show ?thesis by simp
  qed
qed

lemma files_start_pass [simp]:
  "files (snd (start_pass en cmd duration description p w)) = writes p (files w)"
  by (simp add: start_pass_def Let_def split_beta)

lemma files_finish_pass [simp]:
  "files (snd (finish_pass en duration p r)) = files (snd (snd (snd r)))"
  by (simp add: finish_pass_def Let_def split_beta split: option.split)

lemma files_run_ffmpeg:
  "files (snd (run_ffmpeg en self cmd duration description p w)) = writes p (files w)"
  by (simp add: run_ffmpeg_def Let_def split_beta)

subsection \<open>The exit code of a pass\<close>

lemma verbose_result:
  "verbose self \<Longrightarrow> Interrupt \<notin> set (stream p) \<Longrightarrow>
   fst (run_ffmpeg en self cmd duration description p w) =
     (if returncode p = 0 then Inr () else Inl (RuntimeError (FFmpegFailed (returncode p))))"
  by (simp add: run_ffmpeg_def Let_def)

text \<open>
  With the progress bar, a pass that no Ctrl+C interrupts and that exits within the wait
  of 10 seconds succeeds on the exit codes 0 and 255. On another exit code the error
  carries what is left of the stream; the loop has read the stream to its end
  (\<^verbatim>\<open>readline\<close> returns the empty string at the end only), so nothing is left.
\<close>

lemma bar_result:
  assumes "\<not> verbose self" and "has_bar en duration" and "Interrupt \<notin> set (stream p)"
    and "Line [] \<notin> set (stream p)" and "exits_in_time p"
  shows "fst (run_ffmpeg en self cmd duration description p w) =
     (if returncode p = 0 \<or> returncode p = 255 then Inr ()
      else Inl (RuntimeError (FFmpegFailedTail (returncode p) [])))"
proof -
  obtain st w4 where sp: "start_pass en cmd duration description p w = (st, w4)"
    by (cases "start_pass en cmd duration description p w")
  let ?r = "monitor en duration description True st (stream p)
              \<lparr>last_time = 0, current_time = Fin 0\<rparr> w4"
  have a: "fst ?r = None" using assms(3) by (rule monitor_bar_not_interrupted)
  have b: "fst (snd ?r) = []" using assms(4) a by (rule monitor_reads_all)
  obtain u m w5 where r: "?r = (None, u, m, w5)"
    using a by (metis fst_conv prod_cases4)
  with b have "u = []" by simp
  with r assms sp show ?thesis
    by (simp add: run_ffmpeg_def finish_pass_def Let_def py_strip_def)
qed

lemma ex_bar: "\<not> verbose ex_self" "has_bar ex_env 60"
  by (simp_all add: ex_defs has_bar_def use_tqdm_def)

text \<open>
  Claim C7 fails on the code in verbose mode, where the code departs from what it does
  in the monitored mode. Line 190 exempts the exit code 255 (\<^verbatim>\<open>not in (0, 255)\<close>,
  with its comment), line 120 tests \<^verbatim>\<open>returncode != 0\<close>: the same run of the
  encoder, ending with exit code 255, raises \<^verbatim>\<open>RuntimeError\<close> in verbose mode and
  succeeds in the monitored mode. And where line 191 reads the rest of the stream for
  the message of the error, the loop has consumed it: a run that prints an error
  message and exits with code 1 raises an error whose diagnostic text is empty.
\<close>

theorem C7_verbose_255_fails:
  "fst (run_ffmpeg ex_env (ex_self\<lparr>verbose := True\<rparr>) [''ffmpeg''] 60 ''Encoding Pass''
          (ex_pass2\<lparr>returncode := 255\<rparr>) ex_world) =
     Inl (RuntimeError (FFmpegFailed 255)) \<and>
   fst (run_ffmpeg ex_env ex_self [''ffmpeg''] 60 ''Encoding Pass''
          (ex_pass2\<lparr>returncode := 255\<rparr>) ex_world) = Inr () \<and>
   unread_text (stream ex_pass2_error) = ''Conversion failed!\<newline>'' \<and>
   fst (run_ffmpeg ex_env ex_self [''ffmpeg''] 60 ''Encoding Pass'' ex_pass2_error ex_world) =
     Inl (RuntimeError (FFmpegFailedTail 1 []))"
proof -
  have v: "fst (run_ffmpeg ex_env (ex_self\<lparr>verbose := True\<rparr>) [''ffmpeg''] 60 ''Encoding Pass''
          (ex_pass2\<lparr>returncode := 255\<rparr>) ex_world) = Inl (RuntimeError (FFmpegFailed 255))"
    by (simp add: run_ffmpeg_def ex_defs Let_def)
  have m: "fst (run_ffmpeg ex_env ex_self [''ffmpeg''] 60 ''Encoding Pass''
          (ex_pass2\<lparr>returncode := 255\<rparr>) ex_world) = Inr ()"
    using ex_bar by (subst bar_result) (simp_all add: ex_pass2_def)
  have t: "unread_text (stream ex_pass2_error) = ''Conversion failed!\<newline>''"
    by (simp add: ex_pass2_error_def)
  have e: "fst (run_ffmpeg ex_env ex_self [''ffmpeg''] 60 ''Encoding Pass'' ex_pass2_error
          ex_world) = Inl (RuntimeError (FFmpegFailedTail 1 []))"
    using ex_bar by (subst bar_result) (simp_all add: ex_pass2_error_def)
  from v m t e show ?thesis by simp
qed

subsection \<open>Pass-log cleanup\<close>

lemma unlink_if_exists_upd: "unlink_if_exists f fsys = fsys(f := None)"
  by (auto simp: unlink_if_exists_def split: option.split)

text \<open>
  What the loops of lines 302 to 305 and 308 to 311 delete: the file whose name is the
  prefix itself, and the one whose name is the prefix followed by \<^verbatim>\<open>.mbtree\<close>.
  Nothing else is touched.
\<close>

lemma cleanup_passlogs_files:
  "files (cleanup_passlogs w) =
     (files w)(''ffmpeg2pass'' := None, ''ffmpeg2pass.mbtree'' := None)"
  by (simp add: cleanup_passlogs_def passlog_files_def unlink_if_exists_upd)

lemma cleanup_noop:
  "files w ''ffmpeg2pass'' = None \<Longrightarrow> files w ''ffmpeg2pass.mbtree'' = None \<Longrightarrow>
   cleanup_passlogs w = w"
  by (simp add: cleanup_passlogs_def passlog_files_def unlink_if_exists_def)

lemma cleanup_idem: "cleanup_passlogs (cleanup_passlogs w) = cleanup_passlogs w"
  by (rule cleanup_noop) (simp_all add: cleanup_passlogs_files)

lemma two_pass_success:
  assumes "fst (run_ffmpeg en self cmd1 duration ''Analysis Pass'' p1 w) = Inr ()"
    and "fst (run_ffmpeg en self cmd2 duration ''Encoding Pass'' p2
           (snd (run_ffmpeg en self cmd1 duration ''Analysis Pass'' p1 w))) = Inr ()"
  shows "fst (run_two_pass en self cmd1 cmd2 duration p1 p2 w) = Inr ()"
    and "files (snd (run_two_pass en self cmd1 cmd2 duration p1 p2 w)) =
           (writes p2 (writes p1 (files w)))
             (''ffmpeg2pass'' := None, ''ffmpeg2pass.mbtree'' := None)"
  using assms
  by (simp_all add: run_two_pass_def cleanup_passlogs_files files_run_ffmpeg split_beta
      split: sum.split)

lemma two_pass_second_fails:
  assumes "fst (run_ffmpeg en self cmd1 duration ''Analysis Pass'' p1 w) = Inr ()"
    and "fst (run_ffmpeg en self cmd2 duration ''Encoding Pass'' p2
           (snd (run_ffmpeg en self cmd1 duration ''Analysis Pass'' p1 w))) = Inl e"
  shows "fst (run_two_pass en self cmd1 cmd2 duration p1 p2 w) = Inl e"
    and "files (snd (run_two_pass en self cmd1 cmd2 duration p1 p2 w)) =
           (if is_Exception e
            then (writes p2 (writes p1 (files w)))
                   (''ffmpeg2pass'' := None, ''ffmpeg2pass.mbtree'' := None)
            else writes p2 (writes p1 (files w)))"
  using assms
  by (simp_all add: run_two_pass_def on_failure_def cleanup_passlogs_files files_run_ffmpeg
      split_beta split: sum.split)

text \<open>
  Claim C9 fails on the code: the deletion is attempted on both paths, and misses the
  pass log. Lines 275 and 287 give the encoder the prefix \<^verbatim>\<open>ffmpeg2pass\<close>, and
  the two loops delete the files named \<^verbatim>\<open>ffmpeg2pass\<close> and
  \<^verbatim>\<open>ffmpeg2pass.mbtree\<close>. The encoder writes \<^verbatim>\<open>ffmpeg2pass-0.log\<close> and
  \<^verbatim>\<open>ffmpeg2pass-0.log.mbtree\<close>. On a job whose first pass writes these two files,
  in a directory where a file named \<^verbatim>\<open>ffmpeg2pass\<close> lies: when both passes
  succeed, and when the second pass fails with exit code 1, both files of the pass log
  are still there after the \<^verbatim>\<open>try\<close> statement, and the other file is gone.
\<close>

theorem C9_passlogs_survive:
  "fst (run_two_pass ex_env ex_self [''ffmpeg''] [''ffmpeg''] 60 ex_pass1 ex_pass2
          ex_world_stale) = Inr () \<and>
   files (snd (run_two_pass ex_env ex_self [''ffmpeg''] [''ffmpeg''] 60 ex_pass1 ex_pass2
                 ex_world_stale)) =
     [''in.mp4'' \<mapsto> 1000000, ''ffmpeg2pass-0.log'' \<mapsto> 4096,
      ''ffmpeg2pass-0.log.mbtree'' \<mapsto> 4096, ''out.mp4'' \<mapsto> 10485760] \<and>
   fst (run_two_pass ex_env ex_self [''ffmpeg''] [''ffmpeg''] 60 ex_pass1 ex_pass2_failed
          ex_world_stale) = Inl (RuntimeError (FFmpegFailedTail 1 [])) \<and>
   files (snd (run_two_pass ex_env ex_self [''ffmpeg''] [''ffmpeg''] 60 ex_pass1 ex_pass2_failed
                 ex_world_stale)) =
     [''in.mp4'' \<mapsto> 1000000, ''ffmpeg2pass-0.log'' \<mapsto> 4096,
      ''ffmpeg2pass-0.log.mbtree'' \<mapsto> 4096]"
proof -
  have p1: "fst (run_ffmpeg ex_env ex_self [''ffmpeg''] 60 ''Analysis Pass'' ex_pass1 w) = Inr ()"
    for w
    using ex_bar by (subst bar_result) (simp_all add: ex_pass1_def)
  have p2: "fst (run_ffmpeg ex_env ex_self [''ffmpeg''] 60 ''Encoding Pass'' ex_pass2 w) = Inr ()"
    for w
    using ex_bar by (subst bar_result) (simp_all add: ex_pass2_def)
  have p2f: "fst (run_ffmpeg ex_env ex_self [''ffmpeg''] 60 ''Encoding Pass'' ex_pass2_failed w) =
      Inl (RuntimeError (FFmpegFailedTail 1 []))" for w
    using ex_bar by (subst bar_result) (simp_all add: ex_pass2_failed_def)
  have a: "(writes ex_pass2 (writes ex_pass1 (files ex_world_stale)))
       (''ffmpeg2pass'' := None, ''ffmpeg2pass.mbtree'' := None) =
     [''in.mp4'' \<mapsto> 1000000, ''ffmpeg2pass-0.log'' \<mapsto> 4096,
      ''ffmpeg2pass-0.log.mbtree'' \<mapsto> 4096, ''out.mp4'' \<mapsto> 10485760]"
    by (rule ext) (simp add: ex_defs)
  have b: "(writes ex_pass2_failed (writes ex_pass1 (files ex_world_stale)))
       (''ffmpeg2pass'' := None, ''ffmpeg2pass.mbtree'' := None) =
     [''in.mp4'' \<mapsto> 1000000, ''ffmpeg2pass-0.log'' \<mapsto> 4096,
      ''ffmpeg2pass-0.log.mbtree'' \<mapsto> 4096]"
    by (rule ext) (simp add: ex_defs)
  show ?thesis
    using two_pass_success [OF p1 p2, of ex_world_stale]
      two_pass_second_fails [OF p1 p2f, of ex_world_stale] a b
    by simp
qed

subsection \<open>Rounding\<close>

lemma bit_length_bounds:
  "0 < n \<Longrightarrow> 2 ^ (bit_length n - 1) \<le> n \<and> n < 2 ^ bit_length n"
proof (induction n rule: bit_length.induct)
  case (1 n)
  show ?case
  proof (cases "n div 2 = 0")
    case True
    with "1.prems" have "n = 1" by presburger
    then show ?thesis by (simp add: bit_length.simps)
  next
    case False
    then have pos: "0 < n div 2" by simp
    from "1.prems" have n0: "n \<noteq> 0" by simp
    from "1.IH" [OF n0 pos]
    have lo: "2 ^ (bit_length (n div 2) - 1) \<le> n div 2"
      and hi: "n div 2 < 2 ^ bit_length (n div 2)" by simp_all
    have bl: "bit_length n = Suc (bit_length (n div 2))"
      using n0 by (subst bit_length.simps) simp
    have blpos: "0 < bit_length (n div 2)"
      using pos by (subst bit_length.simps) simp
    have "2 ^ (bit_length n - 1) = 2 * 2 ^ (bit_length (n div 2) - 1)"
      using bl blpos by (cases "bit_length (n div 2)") simp_all
    also have "\<dots> \<le> 2 * (n div 2)" using lo by simp
    also have "\<dots> \<le> n" by simp
    finally have L: "2 ^ (bit_length n - 1) \<le> n" .
    have "n < 2 * (n div 2) + 2" by presburger
    also have "\<dots> \<le> 2 * 2 ^ bit_length (n div 2)" using hi by simp
    finally have "n < 2 ^ bit_length n" using bl by simp
    with L show ?thesis by simp
  qed
qed

lemma pow2_pos [simp]: "0 < pow2 e"
  by (simp add: pow2_def)

lemma pow2_powr: "pow2 e = 2 powr real_of_int e"
proof (cases "0 \<le> e")
  case True
  then have "(2::real) powr real_of_int e = 2 powr real (nat e)" by simp
  also have "\<dots> = 2 ^ nat e" by (rule powr_realpow) simp
  finally show ?thesis using True by (simp add: pow2_def)
next
  case False
  then have "(2::real) powr real_of_int e = 2 powr (- real (nat (- e)))" by simp
  also have "\<dots> = 1 / 2 powr real (nat (- e))" by (simp add: powr_minus divide_inverse)
  also have "\<dots> = 1 / 2 ^ nat (- e)" by (simp add: powr_realpow)
  finally show ?thesis using False by (simp add: pow2_def)
qed

lemma pow2_mono: "a \<le> b \<Longrightarrow> pow2 a \<le> pow2 b"
  by (simp add: pow2_powr)

lemma pow2_ilog2_le:
  assumes "0 < y"
  shows "pow2 (ilog2 y) \<le> y"
proof (cases "1 \<le> y")
  case True
  define n where "n = nat \<lfloor>y\<rfloor>"
  from True have npos: "0 < n" by (simp add: n_def)
  have bl: "0 < bit_length n" using npos by (subst bit_length.simps) simp
  have "pow2 (ilog2 y) = 2 ^ (bit_length n - 1)"
    using True bl by (simp add: ilog2_def n_def [symmetric] pow2_def nat_diff_distrib)
  also have "\<dots> \<le> real n"
    using bit_length_bounds [OF npos] by (metis of_nat_le_iff of_nat_numeral of_nat_power)
  also have "\<dots> \<le> y" using True by (simp add: n_def)
  finally show ?thesis .
next
  case False
  with assms have y1: "1 < 1 / y" by simp
  define m where "m = nat (\<lceil>1 / y\<rceil> - 1)"
  have c2: "2 \<le> \<lceil>1 / y\<rceil>" using y1 by linarith
  then have mpos: "0 < m" by (simp add: m_def)
  have "1 / y \<le> real_of_int \<lceil>1 / y\<rceil>" by (rule le_of_int_ceiling)
  also have "\<dots> = real m + 1"
  proof -
    have "int m = \<lceil>1 / y\<rceil> - 1"
      unfolding m_def by (rule nat_0_le) (use c2 in linarith)
    then have "real_of_int (int m) = real_of_int (\<lceil>1 / y\<rceil> - 1)" by (rule arg_cong)
    then show ?thesis by simp
  qed
  also have "\<dots> \<le> 2 ^ bit_length m"
  proof -
    have "m + 1 \<le> 2 ^ bit_length m" using bit_length_bounds [OF mpos] by simp
    then have "real (m + 1) \<le> real (2 ^ bit_length m)" by (rule of_nat_mono)
    then show ?thesis by simp
  qed
  finally have "1 / y \<le> 2 ^ bit_length m" .
  then have "1 / 2 ^ bit_length m \<le> y"
    using assms by (simp add: field_simps)
  moreover have "pow2 (ilog2 y) = 1 / 2 ^ bit_length m"
    using False mpos by (simp add: ilog2_def m_def [symmetric] pow2_def)
  ultimately show ?thesis by simp
qed

lemma round_half_even_ge: "of_int k \<le> q \<Longrightarrow> k \<le> round_half_even q"
  by (simp add: round_half_even_def Let_def le_floor_iff) linarith

lemma fl_nonneg:
  assumes "0 \<le> x"
  shows "0 \<le> fl x"
proof -
  let ?u = "pow2 (ilog2 \<bar>x\<bar> - 52)"
  have "0 \<le> \<bar>x\<bar> / ?u" by (simp add: less_imp_le)
  then have "0 \<le> round_half_even (\<bar>x\<bar> / ?u)"
    using round_half_even_ge [of 0 "\<bar>x\<bar> / ?u"] by simp
  then have "0 \<le> real_of_int (round_half_even (\<bar>x\<bar> / ?u)) * ?u"
    by (simp add: less_imp_le)
  then show ?thesis using assms by (simp add: fl_def Let_def sgn_if)
qed

lemma fl_pos:
  assumes "0 < x"
  shows "0 < fl x"
proof -
  let ?u = "pow2 (ilog2 \<bar>x\<bar> - 52)"
  have "?u \<le> pow2 (ilog2 x)" using assms by (simp add: pow2_mono)
  also have "\<dots> \<le> x" by (rule pow2_ilog2_le [OF assms])
  finally have "1 \<le> \<bar>x\<bar> / ?u" using assms by (simp add: field_simps)
  then have "1 \<le> round_half_even (\<bar>x\<bar> / ?u)"
    using round_half_even_ge [of 1 "\<bar>x\<bar> / ?u"] by simp
  then have "0 < real_of_int (round_half_even (\<bar>x\<bar> / ?u)) * ?u" by simp
  then show ?thesis using assms by (simp add: fl_def Let_def)
qed

lemma fl_minus: "fl (- x) = - fl x"
  by (simp add: fl_def Let_def sgn_if)

lemma fl_eq_0_iff [simp]: "fl x = 0 \<longleftrightarrow> x = 0"
proof (cases x "0::real" rule: linorder_cases)
  case less
  then have "0 < fl (- x)" by (intro fl_pos) simp
  then show ?thesis using less by (simp add: fl_minus)
next
  case equal
  then show ?thesis by (simp add: fl_def)
next
  case greater
  then show ?thesis using fl_pos [of x] by simp
qed

lemma float_of_int_eq_0_iff [simp]: "float_of_int i = 0 \<longleftrightarrow> i = 0"
  by (simp add: float_of_int_def)

subsection \<open>Verification of the output\<close>

lemma verify_missing:
  "files w (output_path self) = None \<Longrightarrow>
   verify_output self target_res w = (Inl (RuntimeError OutputNotCreated), w)"
  by (simp add: verify_output_def)

lemma verify_present:
  assumes "files w (output_path self) = Some n" and "target_size_mb self \<noteq> 0"
  shows "fst (verify_output self target_res w) = Inr ()"
    and "trace (snd (verify_output self target_res w)) =
           trace w @
           [Print (CompressionCompleted (final_size_mb n)), Print (OutputSavedTo (output_path self)),
            Print (SizeAccuracy
                     (fsub 100 (fmul (fl (size_diff self n / float_of_int (target_size_mb self))) 100)))] @
           (if over_ten_percent self n
            then [Print (SizeWarning (size_diff self n) target_res)] else [])"
  using assms by (simp_all add: verify_output_def fdiv_def Let_def say_def emit_def)

text \<open>With a target of 0, line 324 divides by zero once the two messages are printed.\<close>

lemma verify_present_zero:
  assumes "files w (output_path self) = Some n" and "target_size_mb self = 0"
  shows "fst (verify_output self target_res w) = Inl ZeroDivisionError"
  using assms by (simp add: verify_output_def fdiv_def Let_def float_of_int_def fl_def)

lemma verify_present_no_runtime_error:
  assumes "files w (output_path self) = Some n"
  shows "fst (verify_output self target_res w) \<noteq> Inl (RuntimeError OutputNotCreated)"
  using verify_present(1) [OF assms, of target_res] verify_present_zero [OF assms, of target_res]
  by (cases "target_size_mb self = 0") simp_all

text \<open>
  Claim C6, as stated, fails for a destination of no bytes. Line 315 asks whether the
  file exists, and nothing asks for its size to be positive: once both passes are over
  and the destination is empty, verification returns without raising.
\<close>

theorem C6_empty_output_passes:
  "files ex_world_empty_out (output_path ex_self) = Some 0 \<and>
   fst (verify_output ex_self (Some ''426x240'') ex_world_empty_out) = Inr ()"
  by (simp add: verify_eval ex_defs float_eval say_def emit_def)

text \<open>
  Claim C6, amended. After both passes, verification raises \<^verbatim>\<open>RuntimeError\<close>
  (the output file was not created) exactly when the destination does not exist; its
  size is not looked at. For a target size other than 0 that a float can hold, and a
  destination that exists, whatever its size: verification does not fail; it prints
  the final size, the path and the accuracy, and then the warning exactly when the test
  of line 327 holds, that is when the final size is off the target by more than a tenth
  of the target (as the floats of lines 318 to 327 compute it).
\<close>

theorem C6_verification:
  "(fst (verify_output self target_res w) = Inl (RuntimeError OutputNotCreated) \<longleftrightarrow>
      files w (output_path self) = None) \<and>
   (\<forall>n. files w (output_path self) = Some n \<and> target_size_mb self \<noteq> 0 \<and>
        of_int \<bar>target_size_mb self\<bar> \<le> DBL_MAX \<longrightarrow>
      fst (verify_output self target_res w) = Inr () \<and>
      trace (snd (verify_output self target_res w)) =
        trace w @
        [Print (CompressionCompleted (final_size_mb n)), Print (OutputSavedTo (output_path self)),
         Print (SizeAccuracy
                  (fsub 100 (fmul (fl (size_diff self n / float_of_int (target_size_mb self))) 100)))] @
        (if over_ten_percent self n
         then [Print (SizeWarning (size_diff self n) target_res)] else []))"
proof -
  have "fst (verify_output self target_res w) = Inl (RuntimeError OutputNotCreated) \<longleftrightarrow>
      files w (output_path self) = None"
  proof (cases "files w (output_path self)")
    case None
    then show ?thesis by (simp add: verify_missing)
  next
    case (Some n)
    then show ?thesis using verify_present_no_runtime_error [of w self n target_res] by simp
  qed
  then show ?thesis
    using verify_present [of w self _ target_res] by auto
qed

theorem C6_verification_witness:
  "files ex_world (output_path ex_self) = None \<and>
   fst (verify_output ex_self (Some ''426x240'') ex_world) = Inl (RuntimeError OutputNotCreated) \<and>
   target_size_mb ex_self \<noteq> 0 \<and> of_int \<bar>target_size_mb ex_self\<bar> \<le> DBL_MAX \<and>
   files ex_world_big_out (output_path ex_self) = Some 12582912 \<and>
   over_ten_percent ex_self 12582912 \<and>
   fst (verify_output ex_self (Some ''426x240'') ex_world_big_out) = Inr () \<and>
   trace (snd (verify_output ex_self (Some ''426x240'') ex_world_big_out)) =
     [Print (CompressionCompleted 12), Print (OutputSavedTo ''out.mp4''),
      Print (SizeAccuracy 80), Print (SizeWarning 2 (Some ''426x240''))] \<and>
   files ex_world_exact_out (output_path ex_self) = Some 10485760 \<and>
   \<not> over_ten_percent ex_self 10485760 \<and>
   fst (verify_output ex_self (Some ''426x240'') ex_world_exact_out) = Inr () \<and>
   trace (snd (verify_output ex_self (Some ''426x240'') ex_world_exact_out)) =
     [Print (CompressionCompleted 10), Print (OutputSavedTo ''out.mp4''),
      Print (SizeAccuracy 100)]"
proof -
  have a: "files ex_world (output_path ex_self) = None"
    and b: "files ex_world_big_out (output_path ex_self) = Some 12582912"
    and b': "files ex_world_exact_out (output_path ex_self) = Some 10485760"
    and c: "target_size_mb ex_self \<noteq> 0" "of_int \<bar>target_size_mb ex_self\<bar> \<le> DBL_MAX"
    by (simp_all add: ex_defs DBL_MAX_def)
  have d: "over_ten_percent ex_self 12582912" "\<not> over_ten_percent ex_self 10485760"
    by (simp_all add: verify_eval ex_defs float_eval)
  have e: "final_size_mb 12582912 = 12" "size_diff ex_self 12582912 = 2"
    "fsub 100 (fmul (fl (2 / float_of_int (target_size_mb ex_self))) 100) = 80"
    "final_size_mb 10485760 = 10" "size_diff ex_self 10485760 = 0"
    "fsub 100 (fmul (fl (0 / float_of_int (target_size_mb ex_self))) 100) = 100"
    by (simp_all add: verify_eval ex_defs float_eval)
  show ?thesis
    using a b b' c d e
      C6_verification [of ex_self "Some ''426x240''" ex_world]
      C6_verification [of ex_self "Some ''426x240''" ex_world_big_out]
      C6_verification [of ex_self "Some ''426x240''" ex_world_exact_out]
    by (simp add: ex_world_big_out_def ex_world_exact_out_def ex_self_def)
qed

subsection \<open>Progress reports\<close>

lemma reported_append: "reported (xs @ ys) = reported xs @ reported ys"
  by (induction xs rule: reported.induct) simp_all

lemma set_split_on: "p \<in> set (split_on c s) \<Longrightarrow> set p \<subseteq> set s"
proof (induction s arbitrary: p)
  case Nil
  then show ?case by simp
next
  case (Cons x xs)
  show ?case
  proof (cases "x = c")
    case True
    with Cons show ?thesis by auto
  next
    case False
    show ?thesis
    proof (cases "split_on c xs")
      case Nil
      with Cons.prems False show ?thesis by auto
    next
      case (Cons a rest)
      with Cons.prems False have "p = x # a \<or> p \<in> set rest" by simp
      moreover have "set a \<subseteq> set xs" using Cons.IH [of a] Cons by simp
      moreover have "p \<in> set rest \<Longrightarrow> set p \<subseteq> set xs" using Cons.IH [of p] Cons by simp
      ultimately show ?thesis by auto
    qed
  qed
qed

lemma set_py_strip: "set (py_strip s) \<subseteq> set s"
  by (auto simp: py_strip_def dest!: set_dropWhileD)

lemma float_of_digits_nonneg: "0 \<le> float_of_digits ip fp"
  by (simp add: float_of_digits_def fl_nonneg)

lemma DBL_MAX_pos: "0 < DBL_MAX"
  by (simp add: DBL_MAX_def)

lemma xle_Fin [simp]:
  "xle (Fin a) (Fin b) \<longleftrightarrow> a \<le> b" "xle (Fin a) PInf" "\<not> xle (Fin a) NInf"
  "\<not> xle (Fin a) NaN" "\<not> xle NaN x" "\<not> xle x NaN"
  by (cases x; auto simp: xle_def)+

lemma xle_zero_iff: "xle (Fin 0) x \<longleftrightarrow> x = PInf \<or> (\<exists>a. x = Fin a \<and> 0 \<le> a)"
  by (cases x) simp_all

lemma xlift_nonneg: "0 \<le> y \<Longrightarrow> xle (Fin 0) (xlift y)"
  using DBL_MAX_pos by (simp add: xlift_def)

lemma xround_nonneg: "0 \<le> x \<Longrightarrow> xle (Fin 0) (xround x)"
  by (simp add: xround_def xlift_nonneg fl_nonneg)

lemma xmul_nonneg: "xle (Fin 0) x \<Longrightarrow> 0 < c \<Longrightarrow> xle (Fin 0) (xmul x c)"
  by (cases x) (simp_all add: xround_nonneg)

lemma xadd_nonneg: "xle (Fin 0) x \<Longrightarrow> xle (Fin 0) y \<Longrightarrow> xle (Fin 0) (xadd x y)"
  by (cases x; cases y) (simp_all add: xround_nonneg)

lemma py_float_nonneg:
  assumes "CHR ''-'' \<notin> set s" and "py_float s = Some v"
  shows "xle (Fin 0) v"
proof -
  have "CHR ''-'' \<notin> set (py_strip s)" using assms(1) set_py_strip by blast
  then have "\<not> (case py_strip s of [] \<Rightarrow> False | c # r \<Rightarrow> c = CHR ''-'')"
    by (cases "py_strip s") auto
  with assms(2) show ?thesis
    by (auto simp: py_float_def Let_def float_of_digits_nonneg xlift_nonneg
        split: list.splits if_splits)
qed

lemma parse_time_nonneg:
  assumes "CHR ''-'' \<notin> set s"
  shows "xle (Fin 0) (parse_time s)"
proof -
  have part: "xle (Fin 0) v" if "p \<in> set (split_on CHR '':'' s)" and "py_float p = Some v" for p v
    using that assms set_split_on py_float_nonneg by blast
  show ?thesis
  proof (cases "\<exists>a b c rest h m sec. split_on CHR '':'' s = a # b # c # rest \<and>
      py_float a = Some h \<and> py_float b = Some m \<and> py_float c = Some sec")
    case True
    then obtain a b c rest h m sec where sp: "split_on CHR '':'' s = a # b # c # rest"
      and f: "py_float a = Some h" "py_float b = Some m" "py_float c = Some sec"
      by blast
    have "xle (Fin 0) h" "xle (Fin 0) m" "xle (Fin 0) sec"
      using part [of a h] part [of b m] part [of c sec] sp f by simp_all
    then have "xle (Fin 0) (xadd (xadd (xmul h 3600) (xmul m 60)) sec)"
      by (intro xadd_nonneg xmul_nonneg) simp_all
    then show ?thesis using sp f by (simp add: parse_time_def)
  next
    case False
    then have "parse_time s = Fin 0"
      by (auto simp: parse_time_def split: list.splits option.splits)
    then show ?thesis by simp
  qed
qed

lemma take_digits_set:
  "take_digits s = Some (d, r) \<Longrightarrow> CHR ''-'' \<notin> set d"
  by (auto simp: take_digits_def Let_def is_digit_def split: if_splits dest!: set_takeWhileD)

lemma match_time_at_no_minus:
  "match_time_at s = Some g \<Longrightarrow> CHR ''-'' \<notin> set g"
  by (auto simp: match_time_at_def split: if_splits option.splits)
    (blast dest: take_digits_set)+

lemma search_time_no_minus:
  "search_time s = Some g \<Longrightarrow> CHR ''-'' \<notin> set g"
  by (induction s) (auto split: option.splits dest: match_time_at_no_minus)

lemma marker_times_nonneg: "t \<in> set (marker_times evs) \<Longrightarrow> xle (Fin 0) t"
proof (induction evs rule: marker_times.induct)
  case 1
  then show ?case by simp
next
  case (2 evs)
  then show ?case by simp
next
  case (3 l evs)
  then show ?case
    by (auto split: if_splits option.splits dest: search_time_no_minus parse_time_nonneg)
qed

lemma py_min_mono: "xle a b \<Longrightarrow> xle (py_min a d) (py_min b d)"
  by (cases a; cases b; cases d) (auto simp: py_min_def xle_def)

lemma py_min_bounds:
  "xle (Fin 0) t \<Longrightarrow> 0 < d \<Longrightarrow> xle (Fin 0) (py_min t (Fin d)) \<and> xle (py_min t (Fin d)) (Fin d)"
  by (cases t) (auto simp: py_min_def)

lemma sorted_map_py_min:
  "sorted_wrt xle ts \<Longrightarrow> sorted_wrt xle (map (\<lambda>t. py_min t d) ts)"
  by (induction ts) (auto simp: py_min_mono)

lemma sorted_wrt_subseq: "subseq rs ts \<Longrightarrow> sorted_wrt P ts \<Longrightarrow> sorted_wrt P rs"
proof (induction rule: list_emb.induct)
  case (list_emb_Nil ys)
  show ?case by simp
next
  case (list_emb_Cons xs ys y)
  then show ?case by simp
next
  case (list_emb_Cons2 x y xs ys)
  then show ?case by (auto dest: list_emb_set)
qed

lemma on_line_bar:
  "reported (trace (snd (snd (on_line en duration description True start_time l m w)))) =
     reported (trace w) @
     (if contains ''time='' l
      then (case search_time l of
              None \<Rightarrow> []
            | Some g \<Rightarrow> [py_min (parse_time g) (Fin duration)])
      else [])"
  by (simp add: on_line_def Let_def time_time_def emit_def reported_append split_beta
      split: option.split)

lemma monitor_bar:
  "reported (trace (snd (snd (snd (monitor en duration description True start_time evs m w))))) =
     reported (trace w) @ map (\<lambda>t. py_min t (Fin duration)) (marker_times evs)"
proof (induction evs arbitrary: m w)
  case Nil
  show ?case by simp
next
  case (Cons ev evs)
  show ?case
  proof (cases ev)
    case Interrupt
    then show ?thesis by simp
  next
    case (Line l)
    obtain x m' w' where ol: "on_line en duration description True start_time l m w = (x, m', w')"
      by (cases "on_line en duration description True start_time l m w")
    have x: "x = None"
      using on_line_bar_raises_nothing [of en duration description start_time l m w] ol by simp
    have r: "reported (trace w') = reported (trace w) @
       (if contains ''time='' l
        then (case search_time l of
                None \<Rightarrow> []
              | Some g \<Rightarrow> [py_min (parse_time g) (Fin duration)])
        else [])"
      using on_line_bar [of en duration description start_time l m w] ol by simp
    show ?thesis
      using Line ol x r Cons.IH [of m' w'] by (simp split: option.split)
  qed
qed

lemma on_line_text:
  "\<exists>rs. reported (trace (snd (snd (on_line en duration description False start_time l m w)))) =
          reported (trace w) @ rs \<and>
        (rs = [] \<or> (contains ''time='' l \<and> (\<exists>g. search_time l = Some g \<and> rs = [parse_time g])))"
  by (auto simp: on_line_def Let_def time_time_def emit_def say_def reported_append split_beta
      split: option.split sum.split)

lemma monitor_text:
  "\<exists>rs. reported (trace (snd (snd (snd (monitor en duration description False start_time evs
                                          m w))))) = reported (trace w) @ rs \<and>
        subseq rs (marker_times evs)"
proof (induction evs arbitrary: m w)
  case Nil
  show ?case by simp
next
  case (Cons ev evs)
  show ?case
  proof (cases ev)
    case Interrupt
    then show ?thesis by simp
  next
    case (Line l)
    show ?thesis
    proof (cases "l = []")
      case True
      with Line show ?thesis by simp
    next
      case False
      obtain x m' w' where ol:
        "on_line en duration description False start_time l m w = (x, m', w')"
        by (cases "on_line en duration description False start_time l m w")
      obtain rs where rs: "reported (trace w') = reported (trace w) @ rs"
        "rs = [] \<or> (contains ''time='' l \<and> (\<exists>g. search_time l = Some g \<and> rs = [parse_time g]))"
        using on_line_text [of en duration description start_time l m w] ol by auto
      have here: "subseq rs (marker_times [Line l])"
        using rs(2) False by auto
      have split: "marker_times (Line l # evs) = marker_times [Line l] @ marker_times evs"
        using False by (simp split: option.split)
      show ?thesis
      proof (cases x)
        case (Some e)
        have "subseq (rs @ []) (marker_times [Line l] @ marker_times evs)"
          using here by (intro list_emb_append_mono) simp_all
        with Some Line False ol rs(1) split show ?thesis by simp
      next
        case None
        obtain rs' where rs':
          "reported (trace (snd (snd (snd (monitor en duration description False start_time evs
                                             m' w'))))) = reported (trace w') @ rs'"
          "subseq rs' (marker_times evs)"
          using Cons.IH [of m' w'] by auto
        have "subseq (rs @ rs') (marker_times [Line l] @ marker_times evs)"
          using here rs'(2) by (intro list_emb_append_mono) simp_all
        with None Line False ol rs(1) rs'(1) split show ?thesis by simp
      qed
    qed
  qed
qed

lemma reported_start_pass:
  "reported (trace (snd (start_pass en cmd duration description p w))) = reported (trace w)"
  by (simp add: start_pass_def Let_def time_time_def emit_def say_def reported_append split_beta)

lemma reported_finish_pass:
  "reported (trace (snd (finish_pass en duration p r))) = reported (trace (snd (snd (snd r))))"
  by (cases r) (simp add: finish_pass_def Let_def emit_def say_def reported_append
      split: option.split)

lemma run_ffmpeg_bar:
  assumes "\<not> verbose self" and "has_bar en duration"
  shows "reported (trace (snd (run_ffmpeg en self cmd duration description p w))) =
     reported (trace w) @ map (\<lambda>t. py_min t (Fin duration)) (marker_times (stream p))"
proof -
  obtain st w4 where sp: "start_pass en cmd duration description p w = (st, w4)"
    by (cases "start_pass en cmd duration description p w")
  have r4: "reported (trace w4) = reported (trace w)"
    using reported_start_pass [of en cmd duration description p w] sp by simp
  show ?thesis
    using assms sp r4
      monitor_bar [of en duration description st "stream p"
        "\<lparr>last_time = 0, current_time = Fin 0\<rparr>" w4]
    by (simp add: run_ffmpeg_def reported_finish_pass)
qed

lemma run_ffmpeg_text:
  assumes "\<not> verbose self" and "\<not> has_bar en duration"
  shows "\<exists>rs. reported (trace (snd (run_ffmpeg en self cmd duration description p w))) =
                reported (trace w) @ rs \<and> subseq rs (marker_times (stream p))"
proof -
  obtain st w4 where sp: "start_pass en cmd duration description p w = (st, w4)"
    by (cases "start_pass en cmd duration description p w")
  have r4: "reported (trace w4) = reported (trace w)"
    using reported_start_pass [of en cmd duration description p w] sp by simp
  show ?thesis
    using assms sp r4
      monitor_text [of en duration description st "stream p"
        "\<lparr>last_time = 0, current_time = Fin 0\<rparr>" w4]
    by (simp add: run_ffmpeg_def reported_finish_pass)
qed

lemma run_ffmpeg_verbose_reports:
  "verbose self \<Longrightarrow>
   reported (trace (snd (run_ffmpeg en self cmd duration description p w))) = reported (trace w)"
  by (simp add: run_ffmpeg_def Let_def emit_def say_def reported_append)

lemma pass_reports_eq:
  "reported (trace (snd (run_ffmpeg en self cmd duration description p w))) =
     reported (trace w) @ rs \<Longrightarrow>
   pass_reports en self cmd duration description p w = rs"
  by (simp add: pass_reports_def)

lemma ex_markers:
  "search_time ''time=00:00:10.00\<newline>'' = Some ''00:00:10.00''"
  "search_time ''time=00:00:05.00\<newline>'' = Some ''00:00:05.00''"
  "search_time ''time=00:02:00.00\<newline>'' = Some ''00:02:00.00''"
  "search_time ''time=00:00:30.00\<newline>'' = Some ''00:00:30.00''"
  "search_time ''time=00:01:30.00\<newline>'' = Some ''00:01:30.00''"
  by (simp_all add: text_eval)

lemma ex_marker_times:
  "parse_time ''00:00:10.00'' = Fin 10" "parse_time ''00:00:05.00'' = Fin 5"
  "parse_time ''00:02:00.00'' = Fin 120" "parse_time ''00:00:30.00'' = Fin 30"
  "parse_time ''00:01:30.00'' = Fin 90"
  by (simp_all add: text_eval float_eval)

lemma fl_exact:
  "fl 1 = 1" "fl 2 = 2" "fl 5 = 5" "fl 10 = 10" "fl 15 = 15" "fl 18 = 18" "fl 50 = 50"
  "fl 60 = 60" "fl 150 = 150" "fl 200 = 200" "fl (1 / 2) = 1 / 2" "fl (3 / 2) = 3 / 2"
  "fl 1001 = 1001" "fl 1004 = 1004"
  by (simp_all add: float_eval)

lemma xlift_exact:
  "xlift 15 = Fin 15" "xlift 18 = Fin 18" "xlift 50 = Fin 50" "xlift 60 = Fin 60"
  "xlift 150 = Fin 150" "xlift 200 = Fin 200" "xlift 2 = Fin 2" "xlift (1 / 2) = Fin (1 / 2)"
  "xlift (3 / 2) = Fin (3 / 2)"
  by (simp_all add: xlift_def DBL_MAX_def)

text \<open>
  A marker beyond the largest double is read as infinity, and line 173 raises on it.
\<close>

lemma text_path_overflow:
  "0 < duration \<Longrightarrow> progress_percent PInf duration = Inl OverflowError"
  by (simp add: progress_percent_def)

text \<open>
  Claim C4, as stated, fails twice. With the progress bar, a stream whose markers are
  10 s and then 5 s moves the bar to 10 and then back to 5: nothing compares a marker
  with the one before. Without tqdm, a marker of 120 s in a source of 60 s is printed
  as 120.0: line 174 prints \<^verbatim>\<open>current_time\<close> itself, and only the percentage is
  capped.
\<close>

theorem C4_reports_go_back_and_beyond:
  "pass_reports ex_env ex_self [''ffmpeg''] 60 ''Encoding Pass'' ex_pass_back ex_world =
     [Fin 10, Fin 5] \<and>
   \<not> xle (Fin 10) (Fin 5) \<and>
   pass_reports (ex_env\<lparr>TQDM_AVAILABLE := False\<rparr>) ex_self [''ffmpeg''] 60 ''Encoding Pass''
     ex_pass_over ex_world = [Fin 120] \<and>
   \<not> xle (Fin 120) (Fin 60)"
  by (simp add: pass_reports_def run_eval ex_defs ex_markers ex_marker_times fsub_def
      py_int_of_float_def xround_def xlift_exact fl_exact Let_def
      del: fl_eq_0_iff search_time.simps)

text \<open>
  Claim C4, amended. For every pass and every stream, the elapsed media times that the
  pass reports are never below 0, and they never decrease when the times of the
  markers in the stream never decrease. In a pass shown with the progress bar (not
  verbose, tqdm installed, a duration above 5 s) the positions the bar is set to are,
  in order, the markers' times capped at the duration, so none is above the duration.
  In every other pass the reported times are times of markers, in the order of the
  stream (the status line is printed once a second at most, and not at all in verbose
  mode), and they are not capped.
\<close>

theorem C4_reports:
  "reported (trace (snd (run_ffmpeg en self cmd duration description p w))) =
     reported (trace w) @ pass_reports en self cmd duration description p w \<and>
   (\<forall>x \<in> set (pass_reports en self cmd duration description p w). xle (Fin 0) x) \<and>
   (sorted_wrt xle (marker_times (stream p)) \<longrightarrow>
      sorted_wrt xle (pass_reports en self cmd duration description p w)) \<and>
   (\<not> verbose self \<and> has_bar en duration \<longrightarrow>
      pass_reports en self cmd duration description p w =
        map (\<lambda>t. py_min t (Fin duration)) (marker_times (stream p)) \<and>
      (\<forall>x \<in> set (pass_reports en self cmd duration description p w). xle x (Fin duration))) \<and>
   (verbose self \<or> \<not> has_bar en duration \<longrightarrow>
      subseq (pass_reports en self cmd duration description p w) (marker_times (stream p)))"
proof -
  let ?R = "pass_reports en self cmd duration description p w"
  let ?ms = "marker_times (stream p)"
  consider (loud) "verbose self" | (bar) "\<not> verbose self" "has_bar en duration"
    | (status) "\<not> verbose self" "\<not> has_bar en duration"
    by blast
  then show ?thesis
  proof cases
    case loud
    have r: "reported (trace (snd (run_ffmpeg en self cmd duration description p w))) =
        reported (trace w) @ []"
      using run_ffmpeg_verbose_reports [OF loud] by simp
    have "?R = []" using r by (rule pass_reports_eq)
    with r loud show ?thesis by simp
  next
    case bar
    have r: "reported (trace (snd (run_ffmpeg en self cmd duration description p w))) =
        reported (trace w) @ map (\<lambda>t. py_min t (Fin duration)) ?ms"
      using bar by (rule run_ffmpeg_bar)
    have R: "?R = map (\<lambda>t. py_min t (Fin duration)) ?ms" using r by (rule pass_reports_eq)
    have d: "0 < duration" using bar(2) by (simp add: has_bar_def)
    have b: "\<forall>x \<in> set ?R. xle (Fin 0) x \<and> xle x (Fin duration)"
      unfolding R using py_min_bounds [OF marker_times_nonneg d] by auto
    have s: "sorted_wrt xle ?ms \<longrightarrow> sorted_wrt xle ?R"
      unfolding R by (simp add: sorted_map_py_min)
    from r R b s bar show ?thesis by simp
  next
    case status
    obtain rs where r: "reported (trace (snd (run_ffmpeg en self cmd duration description p w))) =
        reported (trace w) @ rs" and sub: "subseq rs ?ms"
      using run_ffmpeg_text [OF status] by blast
    have R: "?R = rs" using r by (rule pass_reports_eq)
    have b: "\<forall>x \<in> set rs. xle (Fin 0) x"
      using sub marker_times_nonneg by (auto dest: list_emb_set)
    have s: "sorted_wrt xle ?ms \<longrightarrow> sorted_wrt xle rs"
      using sub sorted_wrt_subseq by blast
    from r R b s sub status show ?thesis by simp
  qed
qed

theorem C4_reports_witness:
  "\<not> verbose ex_self \<and> has_bar ex_env 60 \<and> \<not> has_bar (ex_env\<lparr>TQDM_AVAILABLE := False\<rparr>) 60 \<and>
   marker_times (stream ex_pass_long) = [Fin 30, Fin 90] \<and>
   sorted_wrt xle [Fin 30, Fin 90] \<and>
   pass_reports ex_env ex_self [''ffmpeg''] 60 ''Encoding Pass'' ex_pass_long ex_world =
     [Fin 30, Fin 60] \<and>
   sorted_wrt xle [Fin 30, Fin 60] \<and>
   pass_reports (ex_env\<lparr>TQDM_AVAILABLE := False\<rparr>) ex_self [''ffmpeg''] 60 ''Encoding Pass''
     ex_pass_long ex_world = [Fin 30, Fin 90] \<and>
   subseq [Fin 30, Fin 90] (marker_times (stream ex_pass_long))"
proof -
  have a: "\<not> verbose ex_self" and b: "has_bar ex_env 60"
    and b': "\<not> has_bar (ex_env\<lparr>TQDM_AVAILABLE := False\<rparr>) 60"
    by (simp_all add: ex_defs has_bar_def use_tqdm_def)
  have c: "marker_times (stream ex_pass_long) = [Fin 30, Fin 90]"
    by (simp add: ex_defs ex_markers ex_marker_times del: search_time.simps)
  have d: "reported (trace ex_world) = []"
    by (simp add: ex_defs)
  have e: "py_min (Fin 30) (Fin 60) = Fin 30" "py_min (Fin 90) (Fin 60) = Fin 60"
    by (simp_all add: py_min_def)
  have f: "pass_reports (ex_env\<lparr>TQDM_AVAILABLE := False\<rparr>) ex_self [''ffmpeg''] 60
      ''Encoding Pass'' ex_pass_long ex_world = [Fin 30, Fin 90]"
    by (simp add: pass_reports_def run_eval ex_defs ex_markers ex_marker_times fsub_def
        py_int_of_float_def xround_def xlift_exact fl_exact Let_def
        del: fl_eq_0_iff search_time.simps)
  show ?thesis
    using a b b' c d e f
      C4_reports [of ex_env ex_self "[''ffmpeg'']" 60 "''Encoding Pass''" ex_pass_long ex_world]
      C4_reports [of "ex_env\<lparr>TQDM_AVAILABLE := False\<rparr>" ex_self "[''ffmpeg'']" 60
        "''Encoding Pass''" ex_pass_long ex_world]
    by simp
qed

subsection \<open>Integers and their text\<close>

lemma below_ten:
  "(k::nat) < 10 \<Longrightarrow> k = 0 \<or> k = 1 \<or> k = 2 \<or> k = 3 \<or> k = 4 \<or> k = 5 \<or> k = 6 \<or> k = 7 \<or> k = 8 \<or> k = 9"
  by arith

lemma digit_char_props: "is_digit (digit_char n)" "digit_val (digit_char n) = n mod 10"
proof -
  define k where "k = n mod 10"
  have "k < 10" by (simp add: k_def)
  from below_ten [OF this]
  have "is_digit (''0123456789'' ! k) \<and> digit_val (''0123456789'' ! k) = k"
    by (elim disjE) (simp_all add: is_digit_def digit_val_def)
  then show "is_digit (digit_char n)" "digit_val (digit_char n) = n mod 10"
    by (simp_all add: digit_char_def k_def)
qed

lemma str_nat_digits: "list_all is_digit (str_nat n) \<and> str_nat n \<noteq> []"
proof (induction n rule: str_nat.induct)
  case (1 n)
  show ?case
  proof (cases "n < 10")
    case True
    then have "str_nat n = [digit_char n]" by (subst str_nat.simps) simp
    then show ?thesis by (simp add: digit_char_props)
  next
    case False
    then have "str_nat n = str_nat (n div 10) @ [digit_char n]" by (subst str_nat.simps) simp
    with "1.IH" False show ?thesis by (simp add: digit_char_props)
  qed
qed

lemma nat_of_digits_snoc:
  "nat_of_digits acc (xs @ [c]) = 10 * nat_of_digits acc xs + digit_val c"
  by (induction xs arbitrary: acc) simp_all

lemma nat_of_digits_str_nat: "nat_of_digits 0 (str_nat n) = n"
proof (induction n rule: str_nat.induct)
  case (1 n)
  show ?case
  proof (cases "n < 10")
    case True
    then have "str_nat n = [digit_char n]" by (subst str_nat.simps) simp
    then show ?thesis using True by (simp add: digit_char_props)
  next
    case False
    then have "str_nat n = str_nat (n div 10) @ [digit_char n]" by (subst str_nat.simps) simp
    with "1.IH" False show ?thesis
      by (simp add: nat_of_digits_snoc digit_char_props)
  qed
qed

lemma digit_not_space: "is_digit c \<Longrightarrow> \<not> is_space c"
  by (auto simp: is_digit_def is_space_def Let_def)

lemma py_strip_id:
  assumes "s \<noteq> []" and "\<not> is_space (hd s)" and "\<not> is_space (last s)"
  shows "py_strip s = s"
proof -
  have a: "dropWhile is_space s = s" using assms(1,2) by (cases s) simp_all
  obtain x xs where r: "rev s = x # xs" using assms(1) by (cases "rev s") auto
  then have "x = last s" using assms(1) by (metis hd_rev list.sel(1))
  then have "dropWhile is_space (x # xs) = x # xs" using assms(3) by simp
  then have "dropWhile is_space (rev s) = rev s" using r by simp
  with a show ?thesis by (simp add: py_strip_def)
qed

lemma py_strip_digits:
  assumes "list_all is_digit ds" and "ds \<noteq> []"
  shows "py_strip ds = ds"
proof (rule py_strip_id [OF assms(2)])
  show "\<not> is_space (hd ds)"
    using assms by (cases ds) (simp_all add: digit_not_space)
  have "last ds \<in> set ds" using assms(2) by simp
  then show "\<not> is_space (last ds)"
    using assms(1) by (auto simp: list_all_iff digit_not_space)
qed

lemma int_body_ok_digits: "list_all is_digit ds \<Longrightarrow> ds \<noteq> [] \<Longrightarrow> int_body_ok ds"
proof (induction ds rule: int_body_ok.induct)
  case 1
  then show ?case by simp
next
  case (2 c)
  then show ?case by simp
next
  case (3 c d cs)
  then have "d \<noteq> CHR ''_''" by (auto simp: is_digit_def)
  with 3 show ?case by simp
qed

lemma filter_underscore_digits:
  "list_all is_digit ds \<Longrightarrow> filter (\<lambda>c. c \<noteq> CHR ''_'') ds = ds"
  by (induction ds) (auto simp: is_digit_def)

lemma py_int_unsigned:
  assumes "py_strip s = c # r" and "c \<noteq> CHR ''-''" and "c \<noteq> CHR ''+''"
    and "int_body_ok (c # r)" and "filter (\<lambda>c. c \<noteq> CHR ''_'') (c # r) = c # r"
  shows "py_int s = Inr (int (nat_of_digits 0 (c # r)))"
  unfolding py_int_def Let_def assms(1) using assms(2-5) by (simp del: filter.simps)

lemma py_int_negative:
  assumes "py_strip s = CHR ''-'' # r"
    and "int_body_ok r" and "filter (\<lambda>c. c \<noteq> CHR ''_'') r = r"
  shows "py_int s = Inr (- int (nat_of_digits 0 r))"
  unfolding py_int_def Let_def assms(1) using assms(2-3) by (simp del: filter.simps)

lemma py_int_digits:
  assumes "list_all is_digit ds" and "ds \<noteq> []"
  shows "py_int ds = Inr (int (nat_of_digits 0 ds))"
proof -
  obtain c r where ds: "ds = c # r" using assms(2) by (cases ds) auto
  have c: "c \<noteq> CHR ''-''" "c \<noteq> CHR ''+''" using assms(1) ds by (auto simp: is_digit_def)
  have t: "py_strip ds = c # r" using py_strip_digits [OF assms] ds by simp
  have ok: "int_body_ok (c # r)" using int_body_ok_digits [OF assms] ds by simp
  have f: "filter (\<lambda>c. c \<noteq> CHR ''_'') (c # r) = c # r"
    using filter_underscore_digits [OF assms(1)] ds by simp
  show ?thesis using py_int_unsigned [OF t c ok f] ds by simp
qed

lemma py_int_str_int: "py_int (str_int i) = Inr i"
proof (cases "i < 0")
  case False
  then show ?thesis
    using py_int_digits [of "str_nat (nat i)"] str_nat_digits [of "nat i"]
    by (simp add: str_int_def nat_of_digits_str_nat)
next
  case True
  let ?ds = "str_nat (nat (- i))"
  have d: "list_all is_digit ?ds" "?ds \<noteq> []" using str_nat_digits by simp_all
  have "\<not> is_space (last ?ds)"
    using d last_in_set [of ?ds] by (auto simp: list_all_iff digit_not_space)
  then have t: "py_strip (CHR ''-'' # ?ds) = CHR ''-'' # ?ds"
    using d(2) by (intro py_strip_id) (simp_all add: is_space_def)
  have ok: "int_body_ok ?ds" by (rule int_body_ok_digits [OF d])
  have f: "filter (\<lambda>c. c \<noteq> CHR ''_'') ?ds = ?ds" by (rule filter_underscore_digits [OF d(1)])
  show ?thesis
    using py_int_negative [OF t ok f] True by (simp add: str_int_def nat_of_digits_str_nat)
qed

lemma split_on_none: "c \<notin> set s \<Longrightarrow> split_on c s = [s]"
  by (induction s) (auto split: list.splits)

lemma split_on_first:
  "c \<notin> set a \<Longrightarrow> split_on c (a @ c # b) = a # split_on c b"
  by (induction a) (auto split: list.splits)

lemma digit_not_x: "is_digit c \<Longrightarrow> c \<noteq> CHR ''x''"
  by (auto simp: is_digit_def)

lemma str_int_no_x: "CHR ''x'' \<notin> set (str_int i)"
proof -
  have "CHR ''x'' \<notin> set (str_nat n)" for n
    using str_nat_digits [of n] digit_not_x by (auto simp: list_all_iff)
  then show ?thesis by (simp add: str_int_def)
qed

lemma parse_wh_str_int: "parse_wh (str_int w @ ''x'' @ str_int h) = Inr (w, h)"
  by (simp add: parse_wh_def split_on_first split_on_none str_int_no_x py_int_str_int)

subsection \<open>What a job adds to the trace\<close>

lemma spawned_append: "spawned (xs @ ys) = spawned xs @ spawned ys"
  by (induction xs rule: spawned.induct) simp_all

lemma trace_emit [simp]: "trace (emit e w) = trace w @ [e]"
  by (simp add: emit_def)

lemma trace_say [simp]: "trace (say m w) = trace w @ [Print m]"
  by (simp add: say_def)

lemma trace_time_time [simp]: "trace (snd (time_time en w)) = trace w"
  by (simp add: time_time_def)





lemma determine_resolution_fst:
  "fst (determine_resolution self w) =
     (if falsy (resolution self) then normalize_resolution None (target_size_mb self)
      else resolution self)"
  by (cases "resolution self") (simp_all add: determine_resolution_def Let_def)

lemma determine_resolution_adds:
  "\<exists>xs. trace (snd (determine_resolution self w)) = trace w @ xs \<and> spawned xs = [] \<and>
        KillTree \<notin> set xs \<and> files (snd (determine_resolution self w)) = files w"
  by (cases "resolution self") (simp_all add: determine_resolution_def Let_def)

lemma calculate_bitrates_runs:
  assumes "d \<noteq> 0"
  shows "\<exists>(b::budget) xs. fst (calculate_bitrates t d w) = Inr b \<and>
           trace (snd (calculate_bitrates t d w)) = trace w @ xs \<and>
           spawned xs = [] \<and> KillTree \<notin> set xs \<and>
           Print (CalculatedBitrates (video_bitrate_kbps b) (audio_bitrate_kbps b)) \<in> set xs \<and>
           audio_bitrate_kbps b = (if t \<le> 10 then 64 else if t \<le> 50 then 96 else 128) \<and>
           files (snd (calculate_bitrates t d w)) = files w"
  using assms
  by (simp add: calculate_bitrates_def video_kbps_for_def audio_kbps_for_def Let_def fdiv_def)

text \<open>
  \<^verbatim>\<open>compress\<close> on a source whose duration is positive: the resolution is
  determined and the bitrates are planned, without a process being started; what
  follows depends on the command line.
\<close>

lemma compress_stages:
  assumes "0 < d"
  shows "\<exists>(b::budget) w3 xs.
     trace w3 = trace w @ xs \<and> spawned xs = [] \<and> KillTree \<notin> set xs \<and> files w3 = files w \<and>
     Print (CalculatedBitrates (video_bitrate_kbps b) (audio_bitrate_kbps b)) \<in> set xs \<and>
     audio_bitrate_kbps b =
       (if target_size_mb self \<le> 10 then 64 else if target_size_mb self \<le> 50 then 96 else 128) \<and>
     compress en self (Inr (d, wd, ht)) p1 p2 w =
       (case build_cmd_base self
               (if falsy (resolution self)
                then normalize_resolution None (target_size_mb self) else resolution self)
               (str_int wd @ ''x'' @ str_int ht) of
          Inl e \<Rightarrow> (Inl e, w3)
        | Inr cmd_base \<Rightarrow>
            (case run_two_pass en self
                    (pass1_cmd en cmd_base (video_bitrate_kbps b))
                    (pass2_cmd self cmd_base (video_bitrate_kbps b) (audio_bitrate_kbps b))
                    d p1 p2 w3 of
               (Inl e, w4) \<Rightarrow> (Inl e, w4)
             | (Inr u, w4) \<Rightarrow>
                 verify_output self
                   (if falsy (resolution self)
                    then normalize_resolution None (target_size_mb self) else resolution self)
                   w4))"
proof -
  let ?orig = "str_int wd @ ''x'' @ str_int ht"
  let ?w1 = "say (TargetSize (target_size_mb self)) (say (SourceVideo ?orig d) w)"
  obtain tr w2 where dr: "determine_resolution self ?w1 = (tr, w2)"
    by (cases "determine_resolution self ?w1")
  have tr: "tr = (if falsy (resolution self)
                  then normalize_resolution None (target_size_mb self) else resolution self)"
    using determine_resolution_fst [of self ?w1] dr by simp
  obtain xs where xs: "trace w2 = trace ?w1 @ xs" "spawned xs = []" "KillTree \<notin> set xs"
    "files w2 = files ?w1"
    using determine_resolution_adds [of self ?w1] dr by auto
  from assms have "d \<noteq> 0" by simp
  from calculate_bitrates_runs [OF this, of "target_size_mb self" w2]
  obtain b ys where b: "fst (calculate_bitrates (target_size_mb self) d w2) = Inr b"
    and ys: "trace (snd (calculate_bitrates (target_size_mb self) d w2)) = trace w2 @ ys"
      "spawned ys = []" "KillTree \<notin> set ys"
      "Print (CalculatedBitrates (video_bitrate_kbps b) (audio_bitrate_kbps b)) \<in> set ys"
      "audio_bitrate_kbps b =
        (if target_size_mb self \<le> 10 then 64 else if target_size_mb self \<le> 50 then 96 else 128)"
      "files (snd (calculate_bitrates (target_size_mb self) d w2)) = files w2"
    by blast
  define w3 where "w3 = snd (calculate_bitrates (target_size_mb self) d w2)"
  have cb: "calculate_bitrates (target_size_mb self) d w2 = (Inr b, w3)"
    using b by (simp add: w3_def prod_eq_iff)
  let ?zs = "[Print (SourceVideo ?orig d), Print (TargetSize (target_size_mb self))] @ xs @ ys"
  have "trace w3 = trace w @ ?zs"
    using xs(1) ys(1) by (simp add: w3_def)
  moreover have "spawned ?zs = []" "KillTree \<notin> set ?zs"
    using xs ys by (simp_all add: spawned_append)
  moreover have "files w3 = files w"
    using xs(4) ys(6) by (simp add: w3_def)
  moreover have "Print (CalculatedBitrates (video_bitrate_kbps b) (audio_bitrate_kbps b)) \<in> set ?zs"
    using ys(4) by simp
  moreover have "compress en self (Inr (d, wd, ht)) p1 p2 w =
       (case build_cmd_base self tr ?orig of
          Inl e \<Rightarrow> (Inl e, w3)
        | Inr cmd_base \<Rightarrow>
            (case run_two_pass en self
                    (pass1_cmd en cmd_base (video_bitrate_kbps b))
                    (pass2_cmd self cmd_base (video_bitrate_kbps b) (audio_bitrate_kbps b))
                    d p1 p2 w3 of
               (Inl e, w4) \<Rightarrow> (Inl e, w4)
             | (Inr u, w4) \<Rightarrow> verify_output self tr w4))"
    using assms dr cb
    by (simp add: compress_def Let_def split del: if_split
        cong: sum.case_cong_weak prod.case_cong_weak)
  ultimately show ?thesis
    using ys(5) unfolding tr
    by - (rule exI [of _ b], rule exI [of _ w3], rule exI [of _ ?zs], (intro conjI; assumption))
qed
subsection \<open>A job without a resolution and a target above 100 MB\<close>

lemma normalize_falsy_large:
  "falsy r \<Longrightarrow> 100 < t \<Longrightarrow> normalize_resolution r t = r"
  by (cases r) (simp_all add: normalize_resolution_def preset_simps)

lemma init_falsy_large:
  assumes "falsy r" and "100 < t"
  shows "VideoCompressor_init inp outp t r v =
     Inr \<lparr>input_path = inp, output_path = outp, target_size_mb = t, verbose = v, resolution = r\<rparr>"
  using assms by (cases r) (simp_all add: VideoCompressor_init_def normalize_falsy_large)

text \<open>
  Claim C1, on the code. With no resolution requested and a target above 100 MB,
  planning returns no resolution (nothing is forced), as the claim says. But
  \<^verbatim>\<open>compress\<close> then compares \<^verbatim>\<open>None\<close> with the source resolution, finds them
  different, and calls \<^verbatim>\<open>target_res.split('x')\<close> on \<^verbatim>\<open>None\<close> (line 261):
  \<^verbatim>\<open>AttributeError\<close> is raised, it is reported as a critical error, the process
  exits with status 1, and no encoder was started. The claim says compression proceeds
  without a filter.
\<close>

theorem C1_no_resolution_large_target_crashes:
  assumes "falsy (a_resolution a)" and "100 < a_target_size a" and "0 < d"
  shows "normalize_resolution (a_resolution a) (a_target_size a) = a_resolution a \<and>
         fst (run_job en a (Inr (d, wd, ht)) p1 p2 w) = 1 \<and>
         (\<exists>xs. trace (snd (run_job en a (Inr (d, wd, ht)) p1 p2 w)) = trace w @ xs \<and>
               spawned xs = [] \<and> Print (CriticalError AttributeError) \<in> set xs)"
proof -
  let ?self = "\<lparr>input_path = a_input a, output_path = a_output a,
                 target_size_mb = a_target_size a, verbose = a_verbose a,
                 resolution = a_resolution a\<rparr>"
  have init: "VideoCompressor_init (a_input a) (a_output a) (a_target_size a) (a_resolution a)
      (a_verbose a) = Inr ?self"
    by (rule init_falsy_large [OF assms(1,2)])
  have none: "(if falsy (resolution ?self)
               then normalize_resolution None (target_size_mb ?self)
               else resolution ?self) = None"
    using assms(1,2) by (simp add: normalize_falsy_large)
  from compress_stages [OF assms(3), where self = ?self and en = en and wd = wd and ht = ht
      and ?p1.0 = p1 and ?p2.0 = p2 and w = w]
  obtain b :: budget and w3 xs where st: "trace w3 = trace w @ xs" "spawned xs = []"
    and co: "compress en ?self (Inr (d, wd, ht)) p1 p2 w = (Inl AttributeError, w3)"
    unfolding none by (auto simp: build_cmd_base_def)
  have "fst (run_job en a (Inr (d, wd, ht)) p1 p2 w) = 1"
    by (simp add: run_job_def init co Let_def)
  moreover have "trace (snd (run_job en a (Inr (d, wd, ht)) p1 p2 w)) =
      trace w @ (xs @ [Print (CriticalError AttributeError)])"
    by (simp add: run_job_def init co Let_def st(1))
  moreover have "spawned (xs @ [Print (CriticalError AttributeError)]) = []"
    by (simp add: spawned_append st(2))
  ultimately show ?thesis
    using normalize_falsy_large [OF assms(1,2)]
    by (intro conjI exI [of _ "xs @ [Print (CriticalError AttributeError)]"]) simp_all
qed

theorem C1_no_resolution_large_target_crashes_witness:
  "falsy (a_resolution ex_default_args) \<and> 100 < a_target_size ex_default_args \<and>
   normalize_resolution None 950 = None \<and>
   fst (run_job ex_env ex_default_args (Inr (60, 1920, 1080)) ex_pass1 ex_pass2 ex_world) = 1 \<and>
   spawned (trace (snd (run_job ex_env ex_default_args (Inr (60, 1920, 1080)) ex_pass1 ex_pass2
                          ex_world))) = [] \<and>
   Print (CriticalError AttributeError) \<in>
     set (trace (snd (run_job ex_env ex_default_args (Inr (60, 1920, 1080)) ex_pass1 ex_pass2
                        ex_world)))"
proof -
  have a: "falsy (a_resolution ex_default_args)" and b: "100 < a_target_size ex_default_args"
    by (simp_all add: ex_defs)
  have c: "(0::real) < 60" by simp
  have d: "trace ex_world = []" by (simp add: ex_defs)
  show ?thesis
    using a b d
      C1_no_resolution_large_target_crashes [OF a b c, where en = ex_env and wd = 1920
        and ht = 1080 and ?p1.0 = ex_pass1 and ?p2.0 = ex_pass2 and w = ex_world]
    by (auto simp: ex_default_args_def)
qed

subsection \<open>The bitrate floor\<close>

text \<open>
  A source of 83.93 seconds and a target of 1 MB, computed step by step. The values are
  those of IEEE-754 double arithmetic.
\<close>

lemma fl_ints: "fl 8388608 = 8388608" "fl 64000 = 64000" "fl 50000 = 50000"
  by (simp_all add: float_eval)

lemma ex_duration: "float_of_digits ''83'' ''93'' = 1476512174707835 / 17592186044416"
  by (simp add: float_of_digits_def digit_val_def float_eval)

lemma ex_percent: "overhead_percent_for 1 = 3602879701896397 / 72057594037927936"
  by (simp add: overhead_percent_for_def float_eval)

lemma ex_overhead: "overhead_bits_for 1 = 3602879701896397 / 8589934592"
  by (simp add: overhead_bits_for_def ex_percent fmul_def float_of_int_def fl_ints)
    (simp add: float_eval)

lemma ex_audio: "audio_total_bits_for 1 (1476512174707835 / 17592186044416) = 5371520"
  by (simp add: audio_total_bits_for_def audio_kbps_for_def fmul_def float_of_int_def fl_ints)
    (simp add: float_eval)

lemma ex_available: "available_video_bits 1 (1476512174707835 / 17592186044416) = 5578427219102925 / 2147483648"
  by (simp add: available_video_bits_def ex_audio ex_overhead fsub_def float_of_int_def fl_ints)
    (simp add: float_eval)

lemma ex_min: "min_video_bits (1476512174707835 / 17592186044416) = 4196500"
  by (simp add: min_video_bits_def MIN_VIDEO_BITRATE_def fmul_def float_of_int_def fl_ints)
    (simp add: float_eval)

lemma ex_floor_hit: "floor_hit 1 (1476512174707835 / 17592186044416)"
  by (simp add: floor_hit_def ex_available ex_min)

lemma ex_kbps: "video_kbps_for 1 (1476512174707835 / 17592186044416) = Inr 49"
  by (simp add: video_kbps_for_def video_total_bits_for_def ex_floor_hit ex_min fdiv_def)
    (simp add: float_eval py_int_of_float_def)

lemma ex_actual: "actual_size_mb 1 (1476512174707835 / 17592186044416) = 5361971604802765 / 4503599627370496"
  by (simp add: actual_size_mb_def ex_min ex_audio ex_overhead fadd_def)
    (simp add: float_eval)

lemma floor_is_reported:
  assumes "floor_hit t d" and "d \<noteq> 0"
  shows "Print (MinBitrateWarning 50) \<in> set (trace (snd (calculate_bitrates t d w))) \<and>
         Print (AdjustedTargetSize (actual_size_mb t d) t) \<in>
           set (trace (snd (calculate_bitrates t d w)))"
  using assms
  by (simp add: calculate_bitrates_def video_kbps_for_def fdiv_def Let_def MIN_VIDEO_BITRATE_def)

text \<open>
  Claim C2, on the code. For a target of 1 MB and a duration of 83.93 s (both positive)
  the floor of line 233 is hit, and \<^verbatim>\<open>video_bitrate_kbps\<close> is 49, not 50:
  \<^verbatim>\<open>50000 * duration\<close> is rounded, the quotient by the duration is
  49999.99999999999, and \<^verbatim>\<open>int\<close> truncates 49.99999999999999 to 49. The report
  prints the warning, the adjusted size and the bitrates 49 and 64.
\<close>

theorem C2_floor_yields_49_kbps:
  "0 < float_of_digits ''83'' ''93'' \<and>
   floor_hit 1 (float_of_digits ''83'' ''93'') \<and>
   video_kbps_for 1 (float_of_digits ''83'' ''93'') = Inr 49 \<and>
   trace (snd (calculate_bitrates 1 (float_of_digits ''83'' ''93'') ex_world)) =
     [Print (MinBitrateWarning 50),
      Print (AdjustedTargetSize (actual_size_mb 1 (float_of_digits ''83'' ''93'')) 1),
      Print (CalculatedBitrates 49 64),
      Print (OverheadEstimate (overhead_percent_for 1) (fl (overhead_bits_for 1 / 8388608)))]"
  by (simp add: ex_duration ex_floor_hit ex_kbps calculate_bitrates_def audio_kbps_for_def
      MIN_VIDEO_BITRATE_def ex_defs Let_def)

subsection \<open>From the constructor to the encoder\<close>

lemma py_strip_digits_newline:
  assumes "list_all is_digit ds" and "ds \<noteq> []"
  shows "py_strip (ds @ [CHR 0x0A]) = ds"
proof -
  have h: "\<not> is_space (hd ds)"
    using assms by (cases ds) (simp_all add: digit_not_space)
  have "last ds \<in> set ds" using assms(2) by simp
  then have l: "\<not> is_space (last ds)"
    using assms(1) by (auto simp: list_all_iff digit_not_space)
  have a: "dropWhile is_space (ds @ [CHR 0x0A]) = ds @ [CHR 0x0A]"
    using assms(2) h by (cases ds) simp_all
  have nl: "is_space (CHR 0x0A)" by (simp add: is_space_def)
  obtain x xs where r: "rev ds = x # xs" using assms(2) by (cases "rev ds") auto
  then have "x = last ds" using assms(2) by (metis hd_rev list.sel(1))
  then have "dropWhile is_space (x # xs) = x # xs" using l by simp
  then have "dropWhile is_space (rev ds) = rev ds" using r by simp
  then have "dropWhile is_space (rev (ds @ [CHR 0x0A])) = rev ds" using nl by simp
  with a show ?thesis by (simp add: py_strip_def)
qed

lemma py_int_digits_newline:
  assumes "list_all is_digit ds" and "ds \<noteq> []"
  shows "py_int (ds @ [CHR 0x0A]) = Inr (int (nat_of_digits 0 ds))"
proof -
  obtain c r where ds: "ds = c # r" using assms(2) by (cases ds) auto
  have c: "c \<noteq> CHR ''-''" "c \<noteq> CHR ''+''" using assms(1) ds by (auto simp: is_digit_def)
  have t: "py_strip (ds @ [CHR 0x0A]) = c # r" using py_strip_digits_newline [OF assms] ds by simp
  have ok: "int_body_ok (c # r)" using int_body_ok_digits [OF assms] ds by simp
  have f: "filter (\<lambda>c. c \<noteq> CHR ''_'') (c # r) = c # r"
    using filter_underscore_digits [OF assms(1)] ds by simp
  show ?thesis using py_int_unsigned [OF t c ok f] ds by simp
qed

lemma re_match_parse:
  assumes "re_match_wxh s"
  shows "\<exists>a b. parse_wh s = Inr (a, b)"
proof -
  define wd where "wd = takeWhile is_digit s"
  define r1 where "r1 = dropWhile is_digit s"
  from assms obtain r2 where w: "wd \<noteq> []" and r1: "r1 = CHR ''x'' # r2"
    and rest: "takeWhile is_digit r2 \<noteq> []"
      "dropWhile is_digit r2 = [] \<or> dropWhile is_digit r2 = [CHR 0x0A]"
    by (auto simp: re_match_wxh_def Let_def wd_def r1_def split: list.splits)
  define ht where "ht = takeWhile is_digit r2"
  have "s = wd @ r1"
    unfolding wd_def r1_def by simp
  then have s: "s = wd @ CHR ''x'' # r2"
    using r1 by simp
  have dw: "list_all is_digit wd" "list_all is_digit ht"
    by (auto simp: wd_def ht_def list_all_iff dest: set_takeWhileD)
  have id: "ht @ dropWhile is_digit r2 = r2"
    unfolding ht_def by simp
  have r2: "r2 = ht \<or> r2 = ht @ [CHR 0x0A]"
  proof (rule disjE [OF rest(2)])
    assume e: "dropWhile is_digit r2 = []"
    from id show ?thesis unfolding e by simp
  next
    assume e: "dropWhile is_digit r2 = [CHR 0x0A]"
    from id show ?thesis unfolding e by simp
  qed
  have xw: "CHR ''x'' \<notin> set wd" "CHR ''x'' \<notin> set ht"
    using dw digit_not_x by (auto simp: list_all_iff)
  then have xr: "CHR ''x'' \<notin> set r2" using r2 by auto
  have sp: "split_on CHR ''x'' s = [wd, r2]"
    unfolding s using xw(1) xr by (simp add: split_on_first split_on_none)
  have a: "py_int wd = Inr (int (nat_of_digits 0 wd))"
    using dw(1) w by (rule py_int_digits)
  have b: "py_int r2 = Inr (int (nat_of_digits 0 ht))"
    using r2 py_int_digits [OF dw(2)] py_int_digits_newline [OF dw(2)] rest(1)
    by (auto simp: ht_def)
  show ?thesis using sp a b by (simp add: parse_wh_def)
qed

lemma preset_values_match: "preset s = Some v \<Longrightarrow> re_match_wxh v"
  by (auto simp: preset_def RESOLUTION_PRESETS_def re_match_wxh_def is_digit_def
      split: if_splits)

text \<open>
  What the constructor lets through: the resolution of a constructed job is absent, or
  a string that the pattern of line 36 matches. It is absent only where nothing was
  requested and the target is above 100 MB.
\<close>

lemma init_cases:
  "(\<exists>s. VideoCompressor_init inp outp t r v = Inl (ValueError (InvalidResolutionFormat s))) \<or>
   (\<exists>res. VideoCompressor_init inp outp t r v =
            Inr \<lparr>input_path = inp, output_path = outp, target_size_mb = t, verbose = v,
                 resolution = res\<rparr> \<and>
          (falsy res \<and> falsy r \<and> 100 < t \<or> (\<exists>s. res = Some s \<and> re_match_wxh s)))"
proof (cases "normalize_resolution r t")
  case None
  then have "falsy r \<and> 100 < t"
    by (cases r) (auto simp: normalize_resolution_def preset_simps preset_def RESOLUTION_PRESETS_def
        split: option.splits if_splits)
  with None show ?thesis by (simp add: VideoCompressor_init_def)
next
  case (Some s)
  show ?thesis
  proof (cases "s = []")
    case True
    with Some have "falsy r \<and> 100 < t"
      by (cases r) (auto simp: normalize_resolution_def preset_simps preset_def
          RESOLUTION_PRESETS_def split: option.splits if_splits)
    with Some True show ?thesis by (simp add: VideoCompressor_init_def)
  next
    case False
    with Some show ?thesis by (auto simp: VideoCompressor_init_def)
  qed
qed

lemma build_ok:
  assumes "re_match_wxh s"
  shows "\<exists>cb. build_cmd_base self (Some s) (str_int wd @ ''x'' @ str_int ht) = Inr cb"
proof -
  obtain a b where "parse_wh s = Inr (a, b)" using re_match_parse [OF assms] by blast
  moreover have "parse_wh (str_int wd @ CHR ''x'' # str_int ht) = Inr (wd, ht)"
    using parse_wh_str_int [of wd ht] by simp
  ultimately show ?thesis by (simp add: build_cmd_base_def Let_def)
qed

lemma trace_cleanup [simp]: "trace (cleanup_passlogs w) = trace w"
  by (simp add: cleanup_passlogs_def)




text \<open>
  \<^verbatim>\<open>compress\<close> for a job whose resolution the constructor has let through, on a
  source of positive duration: the bitrates are planned, and the two passes are run
  with the commands built from them.
\<close>

lemma compress_runs:
  assumes "0 < d" and "resolution self = Some s" and "re_match_wxh s"
  shows "\<exists>(b::budget) cb w3 xs.
     trace w3 = trace w @ xs \<and> spawned xs = [] \<and> KillTree \<notin> set xs \<and> files w3 = files w \<and>
     Print (CalculatedBitrates (video_bitrate_kbps b) (audio_bitrate_kbps b)) \<in> set xs \<and>
     audio_bitrate_kbps b =
       (if target_size_mb self \<le> 10 then 64 else if target_size_mb self \<le> 50 then 96 else 128) \<and>
     compress en self (Inr (d, wd, ht)) p1 p2 w =
       (case run_two_pass en self
               (pass1_cmd en cb (video_bitrate_kbps b))
               (pass2_cmd self cb (video_bitrate_kbps b) (audio_bitrate_kbps b))
               d p1 p2 w3 of
          (Inl e, w4) \<Rightarrow> (Inl e, w4)
        | (Inr u, w4) \<Rightarrow> verify_output self (Some s) w4)"
proof -
  have ne: "s \<noteq> []" using assms(3) by (rule re_match_nonempty)
  then have tr: "(if falsy (resolution self)
                  then normalize_resolution None (target_size_mb self)
                  else resolution self) = Some s"
    using assms(2) by simp
  obtain cb where cb: "build_cmd_base self (Some s) (str_int wd @ ''x'' @ str_int ht) = Inr cb"
    using build_ok [OF assms(3)] by blast
  from compress_stages [OF assms(1), where self = self and en = en and wd = wd and ht = ht
      and ?p1.0 = p1 and ?p2.0 = p2 and w = w]
  obtain b :: budget and w3 xs where st:
    "trace w3 = trace w @ xs" "spawned xs = []" "KillTree \<notin> set xs" "files w3 = files w"
    "Print (CalculatedBitrates (video_bitrate_kbps b) (audio_bitrate_kbps b)) \<in> set xs"
    "audio_bitrate_kbps b =
       (if target_size_mb self \<le> 10 then 64 else if target_size_mb self \<le> 50 then 96 else 128)"
    and co: "compress en self (Inr (d, wd, ht)) p1 p2 w =
       (case run_two_pass en self
               (pass1_cmd en cb (video_bitrate_kbps b))
               (pass2_cmd self cb (video_bitrate_kbps b) (audio_bitrate_kbps b))
               d p1 p2 w3 of
          (Inl e, w4) \<Rightarrow> (Inl e, w4)
        | (Inr u, w4) \<Rightarrow> verify_output self (Some s) w4)"
    unfolding tr cb by auto
  show ?thesis
    using st co
    by - (rule exI [of _ b], rule exI [of _ cb], rule exI [of _ w3], rule exI [of _ xs],
        (intro conjI; assumption))
qed



lemma init_resolution:
  assumes "VideoCompressor_init (a_input a) (a_output a) (a_target_size a) (a_resolution a)
             (a_verbose a) = Inr self"
    and "\<not> (falsy (a_resolution a) \<and> 100 < a_target_size a)"
  shows "self = \<lparr>input_path = a_input a, output_path = a_output a,
                 target_size_mb = a_target_size a, verbose = a_verbose a,
                 resolution = resolution self\<rparr>"
    and "\<exists>s. resolution self = Some s \<and> re_match_wxh s"
  using init_cases [of "a_input a" "a_output a" "a_target_size a" "a_resolution a" "a_verbose a"]
    assms by auto


subsection \<open>A target size of zero or less\<close>





subsection \<open>Ctrl+C during the second pass\<close>

lemma monitor_bar_interrupted:
  assumes "Interrupt \<notin> set pre" and "Line [] \<notin> set pre"
  shows "fst (monitor en duration description True start_time (pre @ Interrupt # post) m w) =
           Some KeyboardInterrupt"
  using assms
proof (induction pre arbitrary: m w)
  case Nil
  show ?case by simp
next
  case (Cons ev pre)
  show ?case
  proof (cases ev)
    case Interrupt
    with Cons.prems show ?thesis by simp
  next
    case (Line l)
    obtain x m' w' where ol: "on_line en duration description True start_time l m w = (x, m', w')"
      by (cases "on_line en duration description True start_time l m w")
    have x: "x = None"
      using on_line_bar_raises_nothing [of en duration description start_time l m w] ol by simp
    have ne: "l \<noteq> []" using Cons.prems(2) Line by auto
    show ?thesis
      using Cons.IH [of m' w'] Cons.prems Line ol x ne by simp
  qed
qed

text \<open>
  Ctrl+C during a pass shown with the progress bar: once the process is killed and has
  exited within the wait of 10 seconds, \<^verbatim>\<open>KeyboardInterrupt\<close> leaves
  \<^verbatim>\<open>_run_ffmpeg\<close>. In verbose mode it leaves \<^verbatim>\<open>process.wait()\<close> at once.
\<close>

lemma bar_interrupted:
  assumes "\<not> verbose self" and "has_bar en duration"
    and "stream p = pre @ Interrupt # post" and "Interrupt \<notin> set pre" and "Line [] \<notin> set pre"
    and "exits_in_time p"
  shows "fst (run_ffmpeg en self cmd duration description p w) = Inl KeyboardInterrupt"
proof -
  obtain st w4 where sp: "start_pass en cmd duration description p w = (st, w4)"
    by (cases "start_pass en cmd duration description p w")
  let ?r = "monitor en duration description True st (pre @ Interrupt # post)
              \<lparr>last_time = 0, current_time = Fin 0\<rparr> w4"
  have a: "fst ?r = Some KeyboardInterrupt"
    using assms(4,5) by (rule monitor_bar_interrupted)
  obtain u m w5 where r: "?r = (Some KeyboardInterrupt, u, m, w5)"
    using a by (metis fst_conv prod_cases4)
  with assms sp show ?thesis
    by (simp add: run_ffmpeg_def finish_pass_def Let_def)
qed

lemma verbose_interrupted:
  "verbose self \<Longrightarrow> Interrupt \<in> set (stream p) \<Longrightarrow>
   fst (run_ffmpeg en self cmd duration description p w) = Inl KeyboardInterrupt"
  by (simp add: run_ffmpeg_def Let_def)

text \<open>
  A job whose first pass succeeds and whose second pass ends with
  \<^verbatim>\<open>KeyboardInterrupt\<close>: no handler on the way out deletes a file.
\<close>

lemma job_interrupted:
  assumes "0 < d"
    and "VideoCompressor_init (a_input a) (a_output a) (a_target_size a) (a_resolution a)
           (a_verbose a) = Inr self"
    and "\<not> (falsy (a_resolution a) \<and> 100 < a_target_size a)"
    and "\<And>cmd w. fst (run_ffmpeg en self cmd d ''Analysis Pass'' p1 w) = Inr ()"
    and "\<And>cmd w. fst (run_ffmpeg en self cmd d ''Encoding Pass'' p2 w) = Inl KeyboardInterrupt"
  shows "fst (run_job en a (Inr (d, wd, ht)) p1 p2 w) = 130"
    and "files (snd (run_job en a (Inr (d, wd, ht)) p1 p2 w)) = writes p2 (writes p1 (files w))"
proof -
  obtain s where s: "resolution self = Some s" "re_match_wxh s"
    using init_resolution(2) [OF assms(2,3)] by blast
  from compress_runs [OF assms(1) s, where en = en and wd = wd and ht = ht
      and ?p1.0 = p1 and ?p2.0 = p2 and w = w]
  obtain b :: budget and cb w3 xs where st: "files w3 = files w"
    and co: "compress en self (Inr (d, wd, ht)) p1 p2 w =
       (case run_two_pass en self
               (pass1_cmd en cb (video_bitrate_kbps b))
               (pass2_cmd self cb (video_bitrate_kbps b) (audio_bitrate_kbps b))
               d p1 p2 w3 of
          (Inl e, w4) \<Rightarrow> (Inl e, w4)
        | (Inr u, w4) \<Rightarrow> verify_output self (Some s) w4)"
    by blast
  let ?tp = "run_two_pass en self (pass1_cmd en cb (video_bitrate_kbps b))
               (pass2_cmd self cb (video_bitrate_kbps b) (audio_bitrate_kbps b)) d p1 p2 w3"
  have ki: "fst ?tp = Inl KeyboardInterrupt"
    and fs: "files (snd ?tp) = writes p2 (writes p1 (files w3))"
    using two_pass_second_fails [OF assms(4) assms(5)] by simp_all
  have c: "compress en self (Inr (d, wd, ht)) p1 p2 w = (Inl KeyboardInterrupt, snd ?tp)"
    using ki by (simp add: co split_beta)
  show "fst (run_job en a (Inr (d, wd, ht)) p1 p2 w) = 130"
    by (simp add: run_job_def assms(2) c)
  show "files (snd (run_job en a (Inr (d, wd, ht)) p1 p2 w)) = writes p2 (writes p1 (files w))"
    using fs st by (simp add: run_job_def assms(2) c)
qed

lemma ex_job:
  "VideoCompressor_init (a_input ex_args) (a_output ex_args) (a_target_size ex_args)
     (a_resolution ex_args) (a_verbose ex_args) = Inr ex_self"
  "\<not> (falsy (a_resolution ex_args) \<and> 100 < a_target_size ex_args)"
  by (simp_all add: ex_args_def ex_self_def VideoCompressor_init_def normalize_resolution_def
      preset_simps re_match_wxh_def is_digit_def)

lemma ex_first_pass:
  "fst (run_ffmpeg ex_env ex_self cmd 60 ''Analysis Pass'' ex_pass1 w) = Inr ()"
  using ex_bar by (subst bar_result) (simp_all add: ex_pass1_def)

lemma ex_second_pass_interrupted:
  "fst (run_ffmpeg ex_env ex_self cmd 60 ''Encoding Pass'' ex_pass2_interrupted w) =
     Inl KeyboardInterrupt"
  using ex_bar
  by (rule bar_interrupted [where pre = "[Line ''frame= 300 time=00:00:10.00 bitrate=1264k\<newline>'']"
        and post = "[]"])
    (simp_all add: ex_pass2_interrupted_def)

text \<open>
  Claim C3, as stated, fails for the files. The first pass writes the pass log, Ctrl+C
  arrives during the second pass, the script kills the encoder, which has written a
  part of the destination. The exit status is 130, as the claim says, and every file is
  still there: the part of the destination, the two files of the pass log, and even a
  file with the name that the loops of lines 302 to 311 delete. Line 306 catches
  \<^verbatim>\<open>Exception\<close>, which \<^verbatim>\<open>KeyboardInterrupt\<close> is not, and the handler of
  line 386 prints and exits.
\<close>

theorem C3_interrupt_leaves_files:
  "fst (run_job ex_env ex_args ex_probe ex_pass1 ex_pass2_interrupted ex_world_stale) = 130 \<and>
   files (snd (run_job ex_env ex_args ex_probe ex_pass1 ex_pass2_interrupted ex_world_stale)) =
     [''in.mp4'' \<mapsto> 1000000, ''ffmpeg2pass'' \<mapsto> 10, ''ffmpeg2pass-0.log'' \<mapsto> 4096,
      ''ffmpeg2pass-0.log.mbtree'' \<mapsto> 4096, ''out.mp4'' \<mapsto> 1500000]"
proof -
  have z: "(0::real) < 60" by simp
  have f: "writes ex_pass2_interrupted (writes ex_pass1 (files ex_world_stale)) =
     [''in.mp4'' \<mapsto> 1000000, ''ffmpeg2pass'' \<mapsto> 10, ''ffmpeg2pass-0.log'' \<mapsto> 4096,
      ''ffmpeg2pass-0.log.mbtree'' \<mapsto> 4096, ''out.mp4'' \<mapsto> 1500000]"
    by (rule ext) (simp add: ex_defs)
  show ?thesis
    using job_interrupted [OF z ex_job ex_first_pass ex_second_pass_interrupted,
        of 1920 1080 ex_world_stale] f
    by (simp add: ex_probe_def)
qed

text \<open>
  Claim C3, amended. Take a job that is constructed with a resolution to plan with, on
  a source of positive duration (size and duration within the range of the floats),
  whose first pass succeeds and whose second pass ends with \<^verbatim>\<open>KeyboardInterrupt\<close>
  (Ctrl+C during the pass; in the monitored mode the script has killed the encoder, and
  the encoder has exited within the wait of 10 seconds). The exit status is 130, and no
  file is deleted: the files are as the two runs of the encoder left them, the
  destination as far as it was written.
\<close>

theorem C3_interrupted_second_pass:
  assumes "within_range (a_target_size a) d"
    and "VideoCompressor_init (a_input a) (a_output a) (a_target_size a) (a_resolution a)
           (a_verbose a) = Inr self"
    and "\<not> (falsy (a_resolution a) \<and> 100 < a_target_size a)"
    and "\<forall>cmd w. fst (run_ffmpeg en self cmd d ''Analysis Pass'' p1 w) = Inr ()"
    and "\<forall>cmd w. fst (run_ffmpeg en self cmd d ''Encoding Pass'' p2 w) = Inl KeyboardInterrupt"
  shows "fst (run_job en a (Inr (d, wd, ht)) p1 p2 w) = 130 \<and>
         files (snd (run_job en a (Inr (d, wd, ht)) p1 p2 w)) = writes p2 (writes p1 (files w))"
proof -
  have d: "0 < d"
    using assms(1) by (auto simp: within_range_def intro: less_le_trans [of 0 "1 / 2 ^ 500" d])
  show ?thesis
    using job_interrupted [OF d assms(2,3), of en p1 p2 wd ht w] assms(4,5) by simp
qed

theorem C3_interrupted_second_pass_witness:
  "within_range (a_target_size ex_args) 60 \<and>
   VideoCompressor_init (a_input ex_args) (a_output ex_args) (a_target_size ex_args)
     (a_resolution ex_args) (a_verbose ex_args) = Inr ex_self \<and>
   \<not> (falsy (a_resolution ex_args) \<and> 100 < a_target_size ex_args) \<and>
   (\<forall>cmd w. fst (run_ffmpeg ex_env ex_self cmd 60 ''Analysis Pass'' ex_pass1 w) = Inr ()) \<and>
   (\<forall>cmd w. fst (run_ffmpeg ex_env ex_self cmd 60 ''Encoding Pass'' ex_pass2_interrupted w) =
              Inl KeyboardInterrupt) \<and>
   fst (run_job ex_env ex_args (Inr (60, 1920, 1080)) ex_pass1 ex_pass2_interrupted ex_world) =
     130 \<and>
   files (snd (run_job ex_env ex_args (Inr (60, 1920, 1080)) ex_pass1 ex_pass2_interrupted
                 ex_world)) ''out.mp4'' = Some 1500000"
proof -
  have z: "within_range (a_target_size ex_args) 60"
    by (simp add: within_range_def ex_args_def)
  have p1: "\<forall>cmd w. fst (run_ffmpeg ex_env ex_self cmd 60 ''Analysis Pass'' ex_pass1 w) = Inr ()"
    using ex_first_pass by blast
  have p2: "\<forall>cmd w. fst (run_ffmpeg ex_env ex_self cmd 60 ''Encoding Pass''
      ex_pass2_interrupted w) = Inl KeyboardInterrupt"
    using ex_second_pass_interrupted by blast
  have f: "writes ex_pass2_interrupted (writes ex_pass1 (files ex_world)) ''out.mp4'' =
      Some 1500000"
    by (simp add: ex_defs)
  show ?thesis
    using z ex_job p1 p2 f
      C3_interrupted_second_pass [OF z ex_job p1 p2, of 1920 1080 ex_world]
    by simp
qed

end
